theory Spec2Isabelle
  imports Complex_Main
begin

section \<open>Unscented Kalman filter (src/ukf.cpp): embedding\<close>

text \<open>
  The C++ type \<^verbatim>\<open>double\<close> is modelled by \<^typ>\<open>real\<close> and \<^verbatim>\<open>M_PI\<close> by \<^term>\<open>pi\<close>:
  rounding, overflow, underflow, infinities and NaN are outside the model. A division is
  HOL's \<open>/\<close>: where the divisor is zero the source gets an infinity or NaN and goes on,
  and the model gets \<open>0\<close> and goes on, so there the model's numbers are not the program's.

  An \<^verbatim>\<open>Eigen::VectorXd\<close> is a list of coefficients. An \<^verbatim>\<open>Eigen::MatrixXd\<close> is the list
  of its columns (Eigen's default storage order), so \<^verbatim>\<open>M.col(j)\<close> is \<open>M ! j\<close> and
  \<^verbatim>\<open>M(i, j)\<close> is \<open>M ! j ! i\<close>.
\<close>

subsection \<open>Vectors and matrices\<close>

type_synonym vec = "real list"
type_synonym mat = "real list list"

definition col :: "mat \<Rightarrow> nat \<Rightarrow> vec" where
  "col M j = M ! j"

definition coeff :: "mat \<Rightarrow> nat \<Rightarrow> nat \<Rightarrow> real" where
  "coeff M i j = M ! j ! i"

definition rows :: "mat \<Rightarrow> nat" where
  "rows M = (case M of [] \<Rightarrow> 0 | c # _ \<Rightarrow> length c)"

definition row :: "mat \<Rightarrow> nat \<Rightarrow> vec" where
  "row M i = map (\<lambda>c. c ! i) M"

text \<open>\<^verbatim>\<open>M(i, j) = a\<close> and \<^verbatim>\<open>M.col(j) = v\<close>.\<close>

definition set_coeff :: "mat \<Rightarrow> nat \<Rightarrow> nat \<Rightarrow> real \<Rightarrow> mat" where
  "set_coeff M i j a = M[j := (M ! j)[i := a]]"

definition set_col :: "mat \<Rightarrow> nat \<Rightarrow> vec \<Rightarrow> mat" where
  "set_col M j v = M[j := v]"

text \<open>\<^verbatim>\<open>v.fill(a)\<close> and \<^verbatim>\<open>M.fill(a)\<close> keep the dimensions.\<close>

definition vfill :: "vec \<Rightarrow> real \<Rightarrow> vec" where
  "vfill v a = replicate (length v) a"

definition mfill :: "mat \<Rightarrow> real \<Rightarrow> mat" where
  "mfill M a = map (\<lambda>c. vfill c a) M"

text \<open>\<^verbatim>\<open>VectorXd(n)\<close> and \<^verbatim>\<open>MatrixXd(r, c)\<close> allocate without initialising. The model
  starts them at zero; every use in the source overwrites all coefficients before reading.\<close>

definition VectorXd :: "nat \<Rightarrow> vec" where
  "VectorXd n = replicate n 0"

definition MatrixXd :: "nat \<Rightarrow> nat \<Rightarrow> mat" where
  "MatrixXd r c = replicate c (replicate r 0)"

text \<open>\<^verbatim>\<open>M << a, b, ...\<close> fills a matrix of \<open>c\<close> columns row by row.\<close>

definition comma_init :: "mat \<Rightarrow> real list \<Rightarrow> mat" where
  "comma_init M as =
     map (\<lambda>j. map (\<lambda>i. as ! (i * length M + j)) [0..<rows M]) [0..<length M]"

definition Identity :: "nat \<Rightarrow> mat" where
  "Identity n = map (\<lambda>j. map (\<lambda>i. if i = j then 1 else 0) [0..<n]) [0..<n]"

definition vadd :: "vec \<Rightarrow> vec \<Rightarrow> vec" where
  "vadd x y = map2 (+) x y"

definition vsub :: "vec \<Rightarrow> vec \<Rightarrow> vec" where
  "vsub x y = map2 (-) x y"

definition smult :: "real \<Rightarrow> vec \<Rightarrow> vec" where
  "smult a x = map (\<lambda>b. a * b) x"

definition madd :: "mat \<Rightarrow> mat \<Rightarrow> mat" where
  "madd A B = map2 vadd A B"

definition msub :: "mat \<Rightarrow> mat \<Rightarrow> mat" where
  "msub A B = map2 vsub A B"

definition msmult :: "mat \<Rightarrow> real \<Rightarrow> mat" where
  "msmult A a = map (\<lambda>c. map (\<lambda>b. b * a) c) A"

text \<open>\<^verbatim>\<open>x * y.transpose()\<close>: coefficient \<open>(i, j)\<close> is \<open>x ! i * y ! j\<close>.\<close>

definition outer :: "vec \<Rightarrow> vec \<Rightarrow> mat" where
  "outer x y = map (\<lambda>b. map (\<lambda>a. a * b) x) y"

definition mvmul :: "mat \<Rightarrow> vec \<Rightarrow> vec" where
  "mvmul A v = map (\<lambda>i. \<Sum>k\<leftarrow>[0..<length v]. coeff A i k * v ! k) [0..<rows A]"

definition mmul :: "mat \<Rightarrow> mat \<Rightarrow> mat" where
  "mmul A B = map (mvmul A) B"

definition mtranspose :: "mat \<Rightarrow> mat" where
  "mtranspose M = map (row M) [0..<rows M]"

text \<open>\<^verbatim>\<open>x.head(n) = v\<close>, \<^verbatim>\<open>x.tail(n).fill(a)\<close>, \<^verbatim>\<open>x.head(n)\<close> and
  \<^verbatim>\<open>M.topLeftCorner(n, n) = B\<close>. Eigen requires \<open>v\<close> to have \<open>n\<close> coefficients and
  \<open>B\<close> to be \<open>n\<close> by \<open>n\<close>; the theorems below assume these sizes.\<close>

definition set_head :: "nat \<Rightarrow> vec \<Rightarrow> vec \<Rightarrow> vec" where
  "set_head n x v = take n v @ drop n x"

definition fill_tail :: "nat \<Rightarrow> vec \<Rightarrow> real \<Rightarrow> vec" where
  "fill_tail n x a = take (length x - n) x @ replicate n a"

definition head :: "nat \<Rightarrow> vec \<Rightarrow> vec" where
  "head n x = take n x"

definition set_topLeftCorner :: "nat \<Rightarrow> mat \<Rightarrow> mat \<Rightarrow> mat" where
  "set_topLeftCorner n M B = map2 (set_head n) (take n M) B @ drop n M"

text \<open>The C library's \<^verbatim>\<open>atan2(y, x)\<close> on real arguments.\<close>

definition atan2 :: "real \<Rightarrow> real \<Rightarrow> real" where
  "atan2 y x =
     (if 0 < x then arctan (y / x)
      else if x < 0 then (if 0 \<le> y then arctan (y / x) + pi else arctan (y / x) - pi)
      else if 0 < y then pi / 2
      else if y < 0 then - (pi / 2)
      else 0)"

subsection \<open>The filter object and a measurement\<close>

text \<open>Modelled from the spec: the headers \<^verbatim>\<open>ukf.h\<close> and \<^verbatim>\<open>measurement_package.h\<close> are
  not part of the sources at hand. The members are those \<^verbatim>\<open>ukf.cpp\<close> uses; the time stamps
  are integers (microseconds), the sensor tag is \<open>LASER\<close>, \<open>RADAR\<close>, or any other value the
  \<^verbatim>\<open>default:\<close> branches of the source provide for (\<open>OTHER\<close>). Isabelle reserves
  names that end in an underscore, so a member \<^verbatim>\<open>x_\<close> of the source is \<open>x'\<close> here.\<close>

datatype SensorType = LASER | RADAR | OTHER

record MeasurementPackage =
  sensor_type' :: SensorType
  timestamp' :: int
  raw_measurements' :: vec

record ukf =
  is_initialized' :: bool
  use_laser' :: bool
  use_radar' :: bool
  x' :: vec
  P' :: mat
  Xsig_pred' :: mat
  Xsig_aug' :: mat
  time' :: int
  std_a' :: real
  std_yawdd' :: real
  std_laspx' :: real
  std_laspy' :: real
  std_radr' :: real
  std_radphi' :: real
  std_radrd' :: real
  n_x' :: nat
  n_aug' :: nat
  n_z' :: nat
  lambda' :: real
  weights' :: vec
  Zsig' :: mat
  H' :: mat
  RL' :: mat
  RR' :: mat

text \<open>How a call can end without returning: \<^verbatim>\<open>exit(1)\<close>.\<close>

datatype error = Exit int

subsection \<open>Constructor\<close>

text \<open>\<^verbatim>\<open>UKF::UKF()\<close>. The constructor leaves the coefficients of \<open>x_\<close> and the member
  \<open>time_\<close> uninitialised; \<open>u\<close> and \<open>t0\<close> stand for what they happen to hold.\<close>

definition UKF :: "(nat \<Rightarrow> real) \<Rightarrow> int \<Rightarrow> ukf" where
  "UKF u t0 =
    (let std_a = 3.0;
         std_yawdd = 1.0;
         std_laspx = 0.15;
         std_laspy = 0.15;
         std_radr = 0.3;
         std_radphi = 0.03;
         std_radrd = 0.3;
         n_x = 5;
         n_aug = 7;
         n_z = 3;
         lambda = 3.0 - real n_x;
         weights = VectorXd (2 * n_aug + 1);
         weight_0 = lambda / (lambda + real n_aug);
         weight = 0.5 / (lambda + real n_aug);
         weights = weights[0 := weight_0];
         weights = fold (\<lambda>i w. w[i := weight]) [1..<2 * n_aug + 1] weights
     in \<lparr> is_initialized' = False,
          use_laser' = True,
          use_radar' = True,
          x' = map u [0..<5],
          P' = msmult (Identity 5) 0.5,
          Xsig_pred' = mfill (MatrixXd 5 15) 0.0,
          Xsig_aug' = mfill (MatrixXd 7 15) 0.0,
          time' = t0,
          std_a' = std_a,
          std_yawdd' = std_yawdd,
          std_laspx' = std_laspx,
          std_laspy' = std_laspy,
          std_radr' = std_radr,
          std_radphi' = std_radphi,
          std_radrd' = std_radrd,
          n_x' = n_x,
          n_aug' = n_aug,
          n_z' = n_z,
          lambda' = lambda,
          weights' = weights,
          Zsig' = mfill (MatrixXd n_z (2 * n_aug + 1)) 0.0,
          H' = comma_init (MatrixXd 2 n_x) [1, 0, 0, 0, 0, 0, 1, 0, 0, 0],
          RL' = comma_init (MatrixXd 2 2)
                  [std_laspx * std_laspx, 0, 0, std_laspy * std_laspy],
          RR' = comma_init (MatrixXd n_z n_z)
                  [std_radr * std_radr, 0, 0, 0, std_radphi * std_radphi, 0, 0, 0,
                   std_radrd * std_radrd] \<rparr>)"

subsection \<open>Angle normalization\<close>

text \<open>The two loops written out at every normalization in the source:
  \<^verbatim>\<open>while (a > M_PI) a -= 2. * M_PI;  while (a < -M_PI) a += 2. * M_PI;\<close>

  Over the reals each loop ends on every argument: that is what the two termination proofs
  show. On doubles \<^verbatim>\<open>a - 2. * M_PI\<close> is \<^verbatim>\<open>a\<close> again once \<^verbatim>\<open>a\<close> is above about
  \<open>7 * 10\<^sup>1\<^sup>6\<close>, so there the loop of the source makes no progress; arguments of that size
  are outside the model, like all rounding.\<close>

function while_gt_pi :: "real \<Rightarrow> real" where
  "while_gt_pi a = (if a > pi then while_gt_pi (a - 2 * pi) else a)"
  by pat_completeness auto
termination
proof (relation "measure (\<lambda>a. nat \<lceil>(a - pi) / (2 * pi)\<rceil>)")
  show "wf (measure (\<lambda>a. nat \<lceil>(a - pi) / (2 * pi)\<rceil>))"
    by simp
next
  fix a :: real
  assume gt: "pi < a"
  have shift: "(a - 2 * pi - pi) / (2 * pi) = (a - pi) / (2 * pi) - 1"
    by (simp add: field_simps)
  have "0 < (a - pi) / (2 * pi)"
    using gt by simp
  then have "1 \<le> \<lceil>(a - pi) / (2 * pi)\<rceil>"
    by linarith
  then have "nat \<lceil>(a - pi) / (2 * pi) - 1\<rceil> < nat \<lceil>(a - pi) / (2 * pi)\<rceil>"
    by linarith
  then have "nat \<lceil>(a - 2 * pi - pi) / (2 * pi)\<rceil> < nat \<lceil>(a - pi) / (2 * pi)\<rceil>"
    by (simp only: shift)
  then show "(a - 2 * pi, a) \<in> measure (\<lambda>a. nat \<lceil>(a - pi) / (2 * pi)\<rceil>)"
    by (simp only: in_measure)
qed

function while_lt_neg_pi :: "real \<Rightarrow> real" where
  "while_lt_neg_pi a = (if a < - pi then while_lt_neg_pi (a + 2 * pi) else a)"
  by pat_completeness auto
termination
proof (relation "measure (\<lambda>a. nat \<lceil>(- pi - a) / (2 * pi)\<rceil>)")
  show "wf (measure (\<lambda>a. nat \<lceil>(- pi - a) / (2 * pi)\<rceil>))"
    by simp
next
  fix a :: real
  assume lt: "a < - pi"
  have shift: "(- pi - (a + 2 * pi)) / (2 * pi) = (- pi - a) / (2 * pi) - 1"
    by (simp add: field_simps)
  have "0 < (- pi - a) / (2 * pi)"
    using lt by simp
  then have "1 \<le> \<lceil>(- pi - a) / (2 * pi)\<rceil>"
    by linarith
  then have "nat \<lceil>(- pi - a) / (2 * pi) - 1\<rceil> < nat \<lceil>(- pi - a) / (2 * pi)\<rceil>"
    by linarith
  then have "nat \<lceil>(- pi - (a + 2 * pi)) / (2 * pi)\<rceil> < nat \<lceil>(- pi - a) / (2 * pi)\<rceil>"
    by (simp only: shift)
  then show "(a + 2 * pi, a) \<in> measure (\<lambda>a. nat \<lceil>(- pi - a) / (2 * pi)\<rceil>)"
    by (simp only: in_measure)
qed

declare while_gt_pi.simps [simp del]
declare while_lt_neg_pi.simps [simp del]

definition angle_normalization :: "real \<Rightarrow> real" where
  "angle_normalization a = while_lt_neg_pi (while_gt_pi a)"

text \<open>The normalization applied to one coefficient of a difference vector,
  as in \<^verbatim>\<open>while (x_diff(3) > M_PI) x_diff(3) -= 2. * M_PI; ...\<close>\<close>

definition normalize_coeff :: "nat \<Rightarrow> vec \<Rightarrow> vec" where
  "normalize_coeff k d = d[k := angle_normalization (d ! k)]"

text \<open>\<^verbatim>\<open>VectorXd x_diff = Xsig_pred_.col(i) - x_;\<close> followed by the normalization of
  the heading \<^verbatim>\<open>x_diff(3)\<close>, and \<^verbatim>\<open>VectorXd z_diff = Zsig_.col(i) - z_pred;\<close> followed by
  the normalization of the bearing \<^verbatim>\<open>z_diff(1)\<close>.\<close>

definition x_diff_at :: "mat \<Rightarrow> vec \<Rightarrow> nat \<Rightarrow> vec" where
  "x_diff_at Xsig_pred x i =
     (let x_diff = vsub (col Xsig_pred i) x in normalize_coeff 3 x_diff)"

definition z_diff_at :: "mat \<Rightarrow> vec \<Rightarrow> nat \<Rightarrow> vec" where
  "z_diff_at Zsig z_pred i =
     (let z_diff = vsub (col Zsig i) z_pred in normalize_coeff 1 z_diff)"

subsection \<open>Prediction\<close>

text \<open>\<^verbatim>\<open>UKF::AugmentedSigmaPoints\<close>, in three parts: the augmented mean \<open>x_aug\<close>, the
  augmented covariance \<open>P_aug\<close>, and the sigma points. \<open>llt\<close> stands for Eigen's
  \<^verbatim>\<open>P_aug.llt().matrixL()\<close>, which is library code: the model takes it as a parameter.\<close>

definition augmented_mean :: "ukf \<Rightarrow> vec" where
  "augmented_mean s =
    (let x_aug = VectorXd 7;
         x_aug = set_head 5 x_aug (x' s);
         x_aug = x_aug[5 := 0];
         x_aug = x_aug[6 := 0]
     in x_aug)"

definition augmented_covariance :: "ukf \<Rightarrow> mat" where
  "augmented_covariance s =
    (let P_aug = MatrixXd 7 7;
         P_aug = mfill P_aug 0.0;
         P_aug = set_topLeftCorner 5 P_aug (P' s);
         P_aug = set_coeff P_aug 5 5 (std_a' s * std_a' s);
         P_aug = set_coeff P_aug 6 6 (std_yawdd' s * std_yawdd' s)
     in P_aug)"

definition AugmentedSigmaPoints :: "(mat \<Rightarrow> mat) \<Rightarrow> ukf \<Rightarrow> ukf" where
  "AugmentedSigmaPoints llt s =
    (let x_aug = augmented_mean s;
         P_aug = augmented_covariance s;
         L = llt P_aug;
         Xsig_aug = set_col (Xsig_aug' s) 0 x_aug;
         Xsig_aug =
           fold (\<lambda>i X.
                  let X = set_col X (i + 1)
                            (vadd x_aug (smult (sqrt (lambda' s + real (n_aug' s))) (col L i)))
                  in set_col X (i + 1 + n_aug' s)
                       (vsub x_aug (smult (sqrt (lambda' s + real (n_aug' s))) (col L i))))
                [0..<n_aug' s] Xsig_aug
     in s\<lparr>Xsig_aug' := Xsig_aug\<rparr>)"

text \<open>The body of the loop of \<^verbatim>\<open>UKF::SigmaPointPrediction\<close> for column \<open>i\<close>: it reads
  \<open>Xsig_aug_\<close> and writes five coefficients of \<open>Xsig_pred_\<close>.\<close>

definition SigmaPointPrediction_body :: "real \<Rightarrow> mat \<Rightarrow> nat \<Rightarrow> mat \<Rightarrow> mat" where
  "SigmaPointPrediction_body delta_t Xsig_aug i Xsig_pred =
    (let p_x = coeff Xsig_aug 0 i;
         p_y = coeff Xsig_aug 1 i;
         v = coeff Xsig_aug 2 i;
         yaw = coeff Xsig_aug 3 i;
         yawd = coeff Xsig_aug 4 i;
         nu_a = coeff Xsig_aug 5 i;
         nu_yawdd = coeff Xsig_aug 6 i;
         (px_p, py_p) =
           (if \<bar>yawd\<bar> > 0.001
            then (p_x + v / yawd * (sin (yaw + yawd * delta_t) - sin yaw),
                  p_y + v / yawd * (cos yaw - cos (yaw + yawd * delta_t)))
            else (p_x + v * delta_t * cos yaw,
                  p_y + v * delta_t * sin yaw));
         v_p = v;
         yaw_p = yaw + yawd * delta_t;
         yawd_p = yawd;
         px_p = px_p + 0.5 * nu_a * delta_t * delta_t * cos yaw;
         py_p = py_p + 0.5 * nu_a * delta_t * delta_t * sin yaw;
         v_p = v_p + nu_a * delta_t;
         yaw_p = yaw_p + 0.5 * nu_yawdd * delta_t * delta_t;
         yawd_p = yawd_p + nu_yawdd * delta_t;
         Xsig_pred = set_coeff Xsig_pred 0 i px_p;
         Xsig_pred = set_coeff Xsig_pred 1 i py_p;
         Xsig_pred = set_coeff Xsig_pred 2 i v_p;
         Xsig_pred = set_coeff Xsig_pred 3 i yaw_p;
         Xsig_pred = set_coeff Xsig_pred 4 i yawd_p
     in Xsig_pred)"

definition SigmaPointPrediction :: "real \<Rightarrow> ukf \<Rightarrow> ukf" where
  "SigmaPointPrediction delta_t s =
     s\<lparr>Xsig_pred' :=
         fold (SigmaPointPrediction_body delta_t (Xsig_aug' s))
           [0..<2 * n_aug' s + 1] (Xsig_pred' s)\<rparr>"

text \<open>\<^verbatim>\<open>UKF::PredictMeanAndCovariance\<close>: the first loop accumulates \<open>x_\<close>, the second
  accumulates \<open>P_\<close> and reads the finished \<open>x_\<close>.\<close>

definition PredictMeanAndCovariance :: "ukf \<Rightarrow> ukf" where
  "PredictMeanAndCovariance s =
    (let x = vfill (x' s) 0.0;
         x = fold (\<lambda>i x. vadd x (smult (weights' s ! i) (col (Xsig_pred' s) i)))
               [0..<2 * n_aug' s + 1] x;
         P = mfill (P' s) 0.0;
         P = fold (\<lambda>i P.
                    let x_diff = x_diff_at (Xsig_pred' s) x i
                    in madd P (outer (smult (weights' s ! i) x_diff) x_diff))
               [0..<2 * n_aug' s + 1] P
     in s\<lparr>x' := x, P' := P\<rparr>)"

definition Prediction :: "(mat \<Rightarrow> mat) \<Rightarrow> real \<Rightarrow> ukf \<Rightarrow> ukf" where
  "Prediction llt delta_t s =
     PredictMeanAndCovariance (SigmaPointPrediction delta_t (AugmentedSigmaPoints llt s))"

subsection \<open>Updates\<close>

text \<open>\<^verbatim>\<open>UKF::UpdateLidar\<close>. \<open>minverse\<close> stands for Eigen's
  \<^verbatim>\<open>MatrixXd::inverse()\<close>, library code like \<open>llt\<close>.\<close>

definition UpdateLidar :: "(mat \<Rightarrow> mat) \<Rightarrow> MeasurementPackage \<Rightarrow> ukf \<Rightarrow> ukf" where
  "UpdateLidar minverse meas_package s =
    (let z = head 2 (raw_measurements' meas_package);
         z_pred = mvmul (H' s) (x' s);
         y = vsub z z_pred;
         Ht = mtranspose (H' s);
         S = madd (mmul (mmul (H' s) (P' s)) Ht) (RL' s);
         Si = minverse S;
         PHt = mmul (P' s) Ht;
         K = mmul PHt Si;
         x = vadd (x' s) (mvmul K y);
         I = Identity 5;
         P = mmul (msub I (mmul K (H' s))) (P' s)
     in s\<lparr>x' := x, P' := P\<rparr>)"

text \<open>The body of the first loop of \<^verbatim>\<open>UKF::PredictRadarMeasurement\<close>. The source divides
  by \<^verbatim>\<open>sqrt(p_x * p_x + p_y * p_y)\<close> without a test, and so does the model.\<close>

definition PredictRadarMeasurement_body :: "mat \<Rightarrow> nat \<Rightarrow> mat \<Rightarrow> mat" where
  "PredictRadarMeasurement_body Xsig_pred i Zsig =
    (let p_x = coeff Xsig_pred 0 i;
         p_y = coeff Xsig_pred 1 i;
         v = coeff Xsig_pred 2 i;
         yaw = coeff Xsig_pred 3 i;
         v1 = cos yaw * v;
         v2 = sin yaw * v;
         Zsig = set_coeff Zsig 0 i (sqrt (p_x * p_x + p_y * p_y));
         Zsig = set_coeff Zsig 1 i (atan2 p_y p_x);
         Zsig = set_coeff Zsig 2 i ((p_x * v1 + p_y * v2) / sqrt (p_x * p_x + p_y * p_y))
     in Zsig)"

text \<open>\<^verbatim>\<open>UKF::PredictRadarMeasurement(z_pred, S)\<close>: it writes the member \<open>Zsig_\<close> and the
  two reference parameters, which the model returns.\<close>

definition PredictRadarMeasurement :: "vec \<Rightarrow> mat \<Rightarrow> ukf \<Rightarrow> ukf \<times> vec \<times> mat" where
  "PredictRadarMeasurement z_pred S s =
    (let Zsig = fold (PredictRadarMeasurement_body (Xsig_pred' s))
                  [0..<2 * n_aug' s + 1] (Zsig' s);
         z_pred = vfill z_pred 0.0;
         z_pred = fold (\<lambda>i z_pred. vadd z_pred (smult (weights' s ! i) (col Zsig i)))
                    [0..<2 * n_aug' s + 1] z_pred;
         S = mfill S 0.0;
         S = fold (\<lambda>i S.
                    let z_diff = z_diff_at Zsig z_pred i
                    in madd S (outer (smult (weights' s ! i) z_diff) z_diff))
               [0..<2 * n_aug' s + 1] S;
         S = madd S (RR' s)
     in (s\<lparr>Zsig' := Zsig\<rparr>, z_pred, S))"

text \<open>\<^verbatim>\<open>UKF::UpdateRadar\<close>.\<close>

definition UpdateRadar :: "(mat \<Rightarrow> mat) \<Rightarrow> MeasurementPackage \<Rightarrow> ukf \<Rightarrow> ukf" where
  "UpdateRadar minverse meas_package s =
    (let z_pred = VectorXd (n_z' s);
         S = MatrixXd (n_z' s) (n_z' s);
         (s, z_pred, S) = PredictRadarMeasurement z_pred S s;
         z = raw_measurements' meas_package;
         Tc = MatrixXd (n_x' s) (n_z' s);
         Tc = mfill Tc 0.0;
         Tc = fold (\<lambda>i Tc.
                     let z_diff = z_diff_at (Zsig' s) z_pred i;
                         x_diff = x_diff_at (Xsig_pred' s) (x' s) i
                     in madd Tc (outer (smult (weights' s ! i) x_diff) z_diff))
                [0..<2 * n_aug' s + 1] Tc;
         K = mmul Tc (minverse S);
         z_diff = vsub z z_pred;
         z_diff = normalize_coeff 1 z_diff;
         x = vadd (x' s) (mvmul K z_diff);
         P = msub (P' s) (mmul (mmul K S) (mtranspose K))
     in s\<lparr>x' := x, P' := P\<rparr>)"

subsection \<open>Dispatcher\<close>

text \<open>\<^verbatim>\<open>UKF::ProcessMeasurement\<close>. In the first \<^verbatim>\<open>switch\<close> the \<open>LASER\<close> case has no
  \<^verbatim>\<open>break\<close> and falls through to \<^verbatim>\<open>default: return;\<close>.\<close>

definition ProcessMeasurement ::
  "(mat \<Rightarrow> mat) \<Rightarrow> (mat \<Rightarrow> mat) \<Rightarrow> MeasurementPackage \<Rightarrow> ukf \<Rightarrow> error + ukf" where
  "ProcessMeasurement llt minverse meas_package s =
    (if \<not> is_initialized' s then
       (case sensor_type' meas_package of
          LASER \<Rightarrow>
            Inr (s\<lparr>x' := fill_tail 3 (set_head 2 (x' s) (raw_measurements' meas_package)) 0.0,
                   time' := timestamp' meas_package,
                   is_initialized' := True\<rparr>)
        | _ \<Rightarrow> Inr s)
     else
       (let delta_t = timestamp' meas_package - time' s;
            s = s\<lparr>time' := timestamp' meas_package\<rparr>;
            s = Prediction llt (real_of_int delta_t / 1000000) s
        in case sensor_type' meas_package of
             LASER \<Rightarrow> Inr (if use_laser' s then UpdateLidar minverse meas_package s else s)
           | RADAR \<Rightarrow> Inr (if use_radar' s then UpdateRadar minverse meas_package s else s)
           | OTHER \<Rightarrow> Inl (Exit 1)))"

subsection \<open>States the filter can be in\<close>

text \<open>No method assigns the configuration members after the constructor, and no method
  changes the size of a vector or matrix member.\<close>

definition is_mat :: "nat \<Rightarrow> nat \<Rightarrow> mat \<Rightarrow> bool" where
  "is_mat r c M \<longleftrightarrow> length M = c \<and> list_all (\<lambda>v. length v = r) M"

definition config_ok :: "ukf \<Rightarrow> bool" where
  "config_ok s \<longleftrightarrow>
    (let c = UKF (\<lambda>i. 0) 0
     in std_a' s = std_a' c \<and> std_yawdd' s = std_yawdd' c \<and>
        n_x' s = n_x' c \<and> n_aug' s = n_aug' c \<and> n_z' s = n_z' c \<and>
        lambda' s = lambda' c \<and> weights' s = weights' c \<and>
        H' s = H' c \<and> RL' s = RL' c \<and> RR' s = RR' c)"

definition sizes_ok :: "ukf \<Rightarrow> bool" where
  "sizes_ok s \<longleftrightarrow>
     length (x' s) = 5 \<and> is_mat 5 5 (P' s) \<and> is_mat 5 15 (Xsig_pred' s) \<and>
     is_mat 7 15 (Xsig_aug' s) \<and> is_mat 3 15 (Zsig' s)"

definition ukf_inv :: "ukf \<Rightarrow> bool" where
  "ukf_inv s \<longleftrightarrow> config_ok s \<and> sizes_ok s"

text \<open>What the invariant needs of the two library routines and of a sample: a routine
  returns a square matrix of the size it was given, and a sample carries two raw values
  when tagged \<open>LASER\<close> and three when tagged \<open>RADAR\<close>.\<close>

definition keeps_size :: "(mat \<Rightarrow> mat) \<Rightarrow> bool" where
  "keeps_size f \<longleftrightarrow> (\<forall>n A. is_mat n n A \<longrightarrow> is_mat n n (f A))"

definition sample_ok :: "MeasurementPackage \<Rightarrow> bool" where
  "sample_ok m \<longleftrightarrow>
     (sensor_type' m = LASER \<longrightarrow> length (raw_measurements' m) = 2) \<and>
     (sensor_type' m = RADAR \<longrightarrow> length (raw_measurements' m) = 3)"

text \<open>A matrix written by rows, as in mathematical notation.\<close>

definition of_rows :: "real list list \<Rightarrow> mat" where
  "of_rows rs = mtranspose rs"

text \<open>Instances of the two library routines for the examples: on a diagonal matrix with
  a positive diagonal the Cholesky factor takes the root of every coefficient, and the
  inverse inverts the diagonal.\<close>

definition llt_diag :: "mat \<Rightarrow> mat" where
  "llt_diag M = map (map sqrt) M"

definition inverse_diag :: "mat \<Rightarrow> mat" where
  "inverse_diag M =
     map (\<lambda>j. map (\<lambda>i. if i = j then 1 / coeff M i i else 0) [0..<rows M]) [0..<length M]"

subsection \<open>The radar update in the words of the specification\<close>

text \<open>Section 4.5 of the specification: the measurement model of one sigma point; the
  weighted mean \<open>\<Sum> w[i] \<cdot> point[i]\<close>; and the weighted sum of outer products
  \<open>\<Sum> w[i] \<cdot> a[i] \<cdot> b[i]\<^sup>T\<close>, each over the 15 sigma points.\<close>

definition spec_radar_model :: "vec \<Rightarrow> vec" where
  "spec_radar_model p =
    (let p_x = p ! 0; p_y = p ! 1; v = p ! 2; yaw = p ! 3;
         range = sqrt (p_x\<^sup>2 + p_y\<^sup>2)
     in [range, atan2 p_y p_x, (p_x * v * cos yaw + p_y * v * sin yaw) / range])"

definition spec_weighted_mean :: "vec \<Rightarrow> mat \<Rightarrow> nat \<Rightarrow> vec" where
  "spec_weighted_mean w X n = map (\<lambda>r. \<Sum>i<15. w ! i * X ! i ! r) [0..<n]"

definition spec_weighted_outer ::
  "vec \<Rightarrow> (nat \<Rightarrow> vec) \<Rightarrow> (nat \<Rightarrow> vec) \<Rightarrow> nat \<Rightarrow> nat \<Rightarrow> mat" where
  "spec_weighted_outer w a b m n =
     map (\<lambda>c. map (\<lambda>r. \<Sum>i<15. w ! i * a i ! r * b i ! c) [0..<m]) [0..<n]"

text \<open>A newly constructed filter whose uninitialised members happen to hold zero.\<close>

definition fresh_ukf :: ukf where
  "fresh_ukf = UKF (\<lambda>i. 0) 0"

text \<open>The filter after a first \<open>LASER\<close> sample \<open>(1, 1)\<close> at time 0.\<close>

definition tracking_ukf :: ukf where
  "tracking_ukf = fresh_ukf\<lparr>x' := [1, 1, 0, 0, 0], time' := 0, is_initialized' := True\<rparr>"

text \<open>The same filter with position \<open>p_x\<close> and speed correlated.\<close>

definition correlated_ukf :: ukf where
  "correlated_ukf = tracking_ukf\<lparr>P' := [[1 / 2, 0, 1 / 10, 0, 0], [0, 1 / 2, 0, 0, 0],
     [1 / 10, 0, 1 / 2, 0, 0], [0, 0, 0, 1 / 2, 0], [0, 0, 0, 0, 1 / 2]]\<rparr>"

text \<open>A filter with mean \<open>(2, 0, 1, 0, 0)\<close> whose predicted sigma points lie on the positive
  \<open>x\<close> axis: four of them differ from the mean, in position and in speed, and point 3 has
  the heading \<open>2 * pi\<close>.\<close>

definition radar_example :: ukf where
  "radar_example = tracking_ukf\<lparr>x' := [2, 0, 1, 0, 0],
     Xsig_pred' := [[2, 0, 1, 0, 0], [3, 0, 1, 0, 0], [2, 0, 1, 0, 0], [2, 0, 2, 2 * pi, 0],
       [2, 0, 1, 0, 0], [2, 0, 1, 0, 0], [2, 0, 1, 0, 0], [2, 0, 1, 0, 0],
       [1, 0, 1, 0, 0], [2, 0, 1, 0, 0], [2, 0, 0, 0, 0], [2, 0, 1, 0, 0],
       [2, 0, 1, 0, 0], [2, 0, 1, 0, 0], [2, 0, 1, 0, 0]]\<rparr>"

section \<open>Properties\<close>

subsection \<open>Sizes and the constructor\<close>

lemma is_mat_iff: "is_mat r c M \<longleftrightarrow> length M = c \<and> (\<forall>j<c. length (M ! j) = r)"
  by (auto simp add: is_mat_def list_all_length)

lemma rows_MatrixXd: "0 < c \<Longrightarrow> rows (MatrixXd r c) = r"
  by (cases c) (simp_all add: rows_def MatrixXd_def)

lemma rows_is_mat: "is_mat r c M \<Longrightarrow> 0 < c \<Longrightarrow> rows M = r"
  by (cases M) (auto simp add: rows_def is_mat_def)

lemma is_mat_MatrixXd: "is_mat r c (MatrixXd r c)"
  by (simp add: is_mat_iff MatrixXd_def)

lemma mfill_is_mat: "is_mat r c M \<Longrightarrow> mfill M a = replicate c (replicate r a)"
  by (rule nth_equalityI) (simp_all add: is_mat_iff mfill_def vfill_def)

lemma is_mat_replicate: "is_mat r c (replicate c (replicate r a))"
  by (simp add: is_mat_iff)

lemma upt_1_15: "[1..<15] = [1, 2, 3, 4, 5, 6, 7, 8, 9, 10, 11, 12, 13, 14]"
  by (simp add: upt_rec)

lemma UKF_config:
  "std_a' (UKF u t0) = 3" "std_yawdd' (UKF u t0) = 1"
  "n_x' (UKF u t0) = 5" "n_aug' (UKF u t0) = 7" "n_z' (UKF u t0) = 3"
  "lambda' (UKF u t0) = - 2"
  "H' (UKF u t0) = [[1, 0], [0, 1], [0, 0], [0, 0], [0, 0]]"
  "RL' (UKF u t0) = [[0.0225, 0], [0, 0.0225]]"
  "RR' (UKF u t0) = [[0.09, 0, 0], [0, 0.0009, 0], [0, 0, 0.09]]"
  by (simp_all add: UKF_def Let_def comma_init_def rows_MatrixXd upt_rec)
    (simp_all add: MatrixXd_def)

lemma UKF_weights: "weights' (UKF u t0) = (- 2 / 5) # replicate 14 (1 / 10)"
  by (simp add: UKF_def Let_def VectorXd_def upt_1_15 eval_nat_numeral)

lemma UKF_flags:
  "\<not> is_initialized' (UKF u t0)" "use_laser' (UKF u t0)" "use_radar' (UKF u t0)"
  "length (x' (UKF u t0)) = 5" "time' (UKF u t0) = t0"
  by (simp_all add: UKF_def Let_def)

lemma sizes_ok_UKF: "sizes_ok (UKF u t0)"
  by (auto simp add: sizes_ok_def UKF_def Let_def is_mat_def list_all_iff mfill_def MatrixXd_def
      vfill_def msmult_def Identity_def)

lemma config_ok_UKF: "config_ok (UKF u t0)"
  by (simp add: config_ok_def Let_def UKF_config UKF_weights)

lemma ukf_inv_UKF: "ukf_inv (UKF u t0)"
  by (simp add: ukf_inv_def config_ok_UKF sizes_ok_UKF)

lemma config_values:
  assumes "config_ok s"
  shows "std_a' s = 3" "std_yawdd' s = 1" "n_x' s = 5" "n_aug' s = 7" "n_z' s = 3"
    "lambda' s = - 2" "weights' s = (- 2 / 5) # replicate 14 (1 / 10)"
    "H' s = [[1, 0], [0, 1], [0, 0], [0, 0], [0, 0]]"
    "RL' s = [[0.0225, 0], [0, 0.0225]]"
    "RR' s = [[0.09, 0, 0], [0, 0.0009, 0], [0, 0, 0.09]]"
  using assms by (simp_all add: config_ok_def Let_def UKF_config UKF_weights)

subsection \<open>Angle normalization\<close>

lemma while_gt_pi_le: "while_gt_pi a \<le> pi"
proof (induction a rule: while_gt_pi.induct)
  case (1 a)
  then show ?case by (subst while_gt_pi.simps) auto
qed

lemma while_lt_neg_pi_ge: "- pi \<le> while_lt_neg_pi a"
proof (induction a rule: while_lt_neg_pi.induct)
  case (1 a)
  then show ?case by (subst while_lt_neg_pi.simps) auto
qed

lemma while_lt_neg_pi_le: "a \<le> pi \<Longrightarrow> while_lt_neg_pi a \<le> pi"
proof (induction a rule: while_lt_neg_pi.induct)
  case (1 a)
  show ?case
  proof (cases "a < - pi")
    case True
    then have "a + 2 * pi \<le> pi" by simp
    with 1 True show ?thesis by (subst while_lt_neg_pi.simps) simp
  next
    case False
    with 1 show ?thesis by (subst while_lt_neg_pi.simps) simp
  qed
qed

lemma angle_normalization_abs: "\<bar>angle_normalization a\<bar> \<le> pi"
proof -
  have "- pi \<le> angle_normalization a" "angle_normalization a \<le> pi"
    unfolding angle_normalization_def
    by (simp_all add: while_lt_neg_pi_ge while_lt_neg_pi_le while_gt_pi_le)
  then show ?thesis by linarith
qed

text \<open>Inside the closed interval neither loop runs.\<close>

lemma angle_normalization_id: "- pi \<le> a \<Longrightarrow> a \<le> pi \<Longrightarrow> angle_normalization a = a"
  unfolding angle_normalization_def
  by (simp add: while_gt_pi.simps [of a] while_lt_neg_pi.simps [of a])

text \<open>Each loop moves its argument by a whole number of turns.\<close>

lemma while_gt_pi_turns: "\<exists>k::int. while_gt_pi a = a + 2 * pi * of_int k"
proof (induction a rule: while_gt_pi.induct)
  case (1 a)
  show ?case
  proof (cases "a > pi")
    case True
    with 1 obtain k :: int where "while_gt_pi (a - 2 * pi) = a - 2 * pi + 2 * pi * of_int k"
      by blast
    then have "while_gt_pi a = a + 2 * pi * of_int (k - 1)"
      using True by (subst while_gt_pi.simps) (simp add: algebra_simps)
    then show ?thesis by blast
  next
    case False
    then have "while_gt_pi a = a + 2 * pi * of_int 0"
      by (subst while_gt_pi.simps) simp
    then show ?thesis by blast
  qed
qed

lemma while_lt_neg_pi_turns: "\<exists>k::int. while_lt_neg_pi a = a + 2 * pi * of_int k"
proof (induction a rule: while_lt_neg_pi.induct)
  case (1 a)
  show ?case
  proof (cases "a < - pi")
    case True
    with 1 obtain k :: int where "while_lt_neg_pi (a + 2 * pi) = a + 2 * pi + 2 * pi * of_int k"
      by blast
    then have "while_lt_neg_pi a = a + 2 * pi * of_int (k + 1)"
      using True by (subst while_lt_neg_pi.simps) (simp add: algebra_simps)
    then show ?thesis by blast
  next
    case False
    then have "while_lt_neg_pi a = a + 2 * pi * of_int 0"
      by (subst while_lt_neg_pi.simps) simp
    then show ?thesis by blast
  qed
qed

lemma angle_normalization_turns: "\<exists>k::int. angle_normalization a = a + 2 * pi * of_int k"
proof -
  obtain k :: int where k: "while_gt_pi a = a + 2 * pi * of_int k"
    using while_gt_pi_turns by blast
  obtain l :: int where "while_lt_neg_pi (while_gt_pi a) = while_gt_pi a + 2 * pi * of_int l"
    using while_lt_neg_pi_turns by blast
  with k have "angle_normalization a = a + 2 * pi * of_int (k + l)"
    by (simp add: angle_normalization_def algebra_simps)
  then show ?thesis by blast
qed

lemma angle_normalization_2pi: "angle_normalization (2 * pi) = 0"
  unfolding angle_normalization_def
  by (simp add: while_gt_pi.simps [of "2 * pi"] while_gt_pi.simps [of 0]
      while_lt_neg_pi.simps [of 0])

lemma angle_normalization_4: "angle_normalization 4 = 4 - 2 * pi"
proof -
  have "pi < 4" "2 \<le> pi"
    using pi_less_4 pi_ge_two by simp_all
  then show ?thesis
    unfolding angle_normalization_def
    by (simp add: while_gt_pi.simps [of 4] while_gt_pi.simps [of "4 - 2 * pi"]
        while_lt_neg_pi.simps [of "4 - 2 * pi"])
qed

lemma length_vsub: "length (vsub a b) = min (length a) (length b)"
  by (simp add: vsub_def)

lemma normalize_coeff_nth:
  "k < length d \<Longrightarrow> normalize_coeff k d ! k = angle_normalization (d ! k)"
  by (simp add: normalize_coeff_def)

subsection \<open>Vector operations and loops over columns\<close>

lemma vadd_nth: "r < length a \<Longrightarrow> r < length b \<Longrightarrow> vadd a b ! r = a ! r + b ! r"
  by (simp add: vadd_def)

lemma vsub_nth: "r < length a \<Longrightarrow> r < length b \<Longrightarrow> vsub a b ! r = a ! r - b ! r"
  by (simp add: vsub_def)

lemma smult_nth: "r < length a \<Longrightarrow> smult c a ! r = c * a ! r"
  by (simp add: smult_def)

lemma length_vadd: "length (vadd a b) = min (length a) (length b)"
  by (simp add: vadd_def)

lemma length_smult: "length (smult c a) = length a"
  by (simp add: smult_def)

text \<open>A loop whose body rewrites column \<open>i\<close> only.\<close>

lemma fold_column_loop:
  assumes body: "\<And>i X. i < length X \<Longrightarrow> f i X = X[i := g i (X ! i)]"
    and n: "n \<le> length X"
  shows "length (fold f [0..<n] X) = length X \<and>
         (\<forall>j<length X. fold f [0..<n] X ! j = (if j < n then g j (X ! j) else X ! j))"
  using n
proof (induction n)
  case 0
  then show ?case by simp
next
  case (Suc n)
  let ?Y = "fold f [0..<n] X"
  from Suc have len: "length ?Y = length X"
    and old: "\<forall>j<length X. ?Y ! j = (if j < n then g j (X ! j) else X ! j)"
    by simp_all
  from Suc.prems len have step: "fold f [0..<Suc n] X = ?Y[n := g n (?Y ! n)]"
    by (simp add: body)
  from Suc.prems old have "?Y ! n = X ! n"
    by simp
  with step len old Suc.prems show ?case
    by (auto simp add: nth_list_update less_Suc_eq)
qed

lemma list5_update:
  "length c = 5 \<Longrightarrow> c[0 := a0, Suc 0 := a1, 2 := a2, 3 := a3, 4 := a4] = [a0, a1, a2, a3, a4]"
  by (auto simp add: length_Suc_conv eval_nat_numeral)

text \<open>The loop of \<open>AugmentedSigmaPoints\<close>: iteration \<open>i\<close> writes columns \<open>i + 1\<close> and
  \<open>i + 1 + m\<close>, and no later iteration touches them.\<close>

lemma reflect_loop:
  fixes a b :: "nat \<Rightarrow> vec"
  defines "f \<equiv> \<lambda>m i X. let X = set_col X (i + 1) (a i) in set_col X (i + 1 + m) (b i)"
  assumes n: "n \<le> m" and len: "2 * m < length X"
  shows "length (fold (f m) [0..<n] X) = length X \<and>
         (\<forall>j<length X.
            fold (f m) [0..<n] X ! j =
            (if 1 \<le> j \<and> j \<le> n then a (j - 1)
             else if m + 1 \<le> j \<and> j \<le> m + n then b (j - 1 - m)
             else X ! j))"
  using n
proof (induction n)
  case 0
  then show ?case by auto
next
  case (Suc n)
  let ?Y = "fold (f m) [0..<n] X"
  from Suc have lenY: "length ?Y = length X"
    and old: "\<forall>j<length X. ?Y ! j =
            (if 1 \<le> j \<and> j \<le> n then a (j - 1)
             else if m + 1 \<le> j \<and> j \<le> m + n then b (j - 1 - m)
             else X ! j)"
    by simp_all
  have step: "fold (f m) [0..<Suc n] X = ?Y[n + 1 := a n, n + 1 + m := b n]"
    by (simp add: f_def Let_def set_col_def)
  show ?case
  proof (intro conjI allI impI)
    show "length (fold (f m) [0..<Suc n] X) = length X"
      by (simp only: step length_list_update lenY)
  next
    fix j assume j: "j < length X"
    with old have oldj: "?Y ! j =
            (if 1 \<le> j \<and> j \<le> n then a (j - 1)
             else if m + 1 \<le> j \<and> j \<le> m + n then b (j - 1 - m)
             else X ! j)" by simp
    consider "j = n + 1 + m" | "j = n + 1" | "j \<noteq> n + 1 + m" "j \<noteq> n + 1" by blast
    then show "fold (f m) [0..<Suc n] X ! j =
            (if 1 \<le> j \<and> j \<le> Suc n then a (j - 1)
             else if m + 1 \<le> j \<and> j \<le> m + Suc n then b (j - 1 - m)
             else X ! j)"
    proof cases
      case 1
      with j lenY Suc.prems show ?thesis unfolding step by simp
    next
      case 2
      with j lenY Suc.prems show ?thesis unfolding step by simp
    next
      case 3
      with j lenY Suc.prems oldj show ?thesis unfolding step by auto
    qed
  qed
qed

lemma sizes_values:
  assumes "sizes_ok s"
  shows "length (x' s) = 5" "length (P' s) = 5" "length (Xsig_pred' s) = 15"
    "length (Xsig_aug' s) = 15" "length (Zsig' s) = 15"
    "j < 5 \<Longrightarrow> length (P' s ! j) = 5"
    "i < 15 \<Longrightarrow> length (Xsig_pred' s ! i) = 5"
    "i < 15 \<Longrightarrow> length (Xsig_aug' s ! i) = 7"
    "i < 15 \<Longrightarrow> length (Zsig' s ! i) = 3"
  using assms by (simp_all add: sizes_ok_def is_mat_iff)

lemma ukf_inv_fresh: "ukf_inv fresh_ukf"
  by (simp add: fresh_ukf_def ukf_inv_UKF)

lemma fresh_values:
  "x' fresh_ukf = [0, 0, 0, 0, 0]"
  "P' fresh_ukf = [[1 / 2, 0, 0, 0, 0], [0, 1 / 2, 0, 0, 0], [0, 0, 1 / 2, 0, 0],
                   [0, 0, 0, 1 / 2, 0], [0, 0, 0, 0, 1 / 2]]"
  by (simp_all add: fresh_ukf_def UKF_def Let_def msmult_def Identity_def upt_rec)

lemma ukf_inv_sigma_update:
  "ukf_inv s \<Longrightarrow> is_mat 7 15 A \<Longrightarrow> ukf_inv (s\<lparr>Xsig_aug' := A\<rparr>)"
  "ukf_inv s \<Longrightarrow> is_mat 5 15 B \<Longrightarrow> ukf_inv (s\<lparr>Xsig_pred' := B\<rparr>)"
  by (simp_all add: ukf_inv_def config_ok_def sizes_ok_def)

lemma fresh_config:
  "std_a' fresh_ukf = 3" "std_yawdd' fresh_ukf = 1" "n_x' fresh_ukf = 5" "n_aug' fresh_ukf = 7"
  "lambda' fresh_ukf = - 2"
  by (simp_all add: fresh_ukf_def UKF_config)

subsection \<open>Sigma-point generation\<close>

lemma augmented_mean_eq: "length (x' s) = 5 \<Longrightarrow> augmented_mean s = x' s @ [0, 0]"
  by (simp add: augmented_mean_def Let_def set_head_def VectorXd_def list_update_append
      eval_nat_numeral)

lemma augmented_covariance_eq:
  assumes "is_mat 5 5 (P' s)"
  shows "augmented_covariance s =
     [P' s ! 0 @ [0, 0], P' s ! 1 @ [0, 0], P' s ! 2 @ [0, 0], P' s ! 3 @ [0, 0], P' s ! 4 @ [0, 0],
      [0, 0, 0, 0, 0, std_a' s * std_a' s, 0],
      [0, 0, 0, 0, 0, 0, std_yawdd' s * std_yawdd' s]]"
proof -
  from assms have len: "length (P' s) = 5"
    and cols: "length (P' s ! 0) = 5" "length (P' s ! 1) = 5" "length (P' s ! 2) = 5"
      "length (P' s ! 3) = 5" "length (P' s ! 4) = 5"
    by (simp_all add: is_mat_iff)
  have P: "P' s = [P' s ! 0, P' s ! 1, P' s ! 2, P' s ! 3, P' s ! 4]"
    using len by (auto simp add: length_Suc_conv eval_nat_numeral)
  have Z: "mfill (MatrixXd 7 7) 0 =
      [[0, 0, 0, 0, 0, 0, 0], [0, 0, 0, 0, 0, 0, 0], [0, 0, 0, 0, 0, 0, 0], [0, 0, 0, 0, 0, 0, 0],
       [0, 0, 0, 0, 0, 0, 0], [0, 0, 0, 0, 0, 0, 0], [0, 0, 0, 0, 0, 0, 0]]"
    by (simp add: mfill_is_mat [OF is_mat_MatrixXd] eval_nat_numeral)
  have "augmented_covariance s =
      set_coeff (set_coeff (set_topLeftCorner 5 (mfill (MatrixXd 7 7) 0)
        [P' s ! 0, P' s ! 1, P' s ! 2, P' s ! 3, P' s ! 4]) 5 5 (std_a' s * std_a' s))
        6 6 (std_yawdd' s * std_yawdd' s)"
    using P by (simp add: augmented_covariance_def Let_def)
  then show ?thesis
    using cols by (simp add: Z set_topLeftCorner_def set_head_def set_coeff_def)
qed

lemma is_mat_llt_diag: "is_mat r c M \<Longrightarrow> is_mat r c (llt_diag M)"
  by (simp add: is_mat_iff llt_diag_def)

lemma length_augmented_mean: "length (x' s) = 5 \<Longrightarrow> length (augmented_mean s) = 7"
  by (simp add: augmented_mean_eq)

lemma is_mat_augmented_covariance: "is_mat 5 5 (P' s) \<Longrightarrow> is_mat 7 7 (augmented_covariance s)"
proof -
  assume P: "is_mat 5 5 (P' s)"
  then have "length (P' s ! 0) = 5" "length (P' s ! 1) = 5" "length (P' s ! 2) = 5"
    "length (P' s ! 3) = 5" "length (P' s ! 4) = 5"
    by (simp_all add: is_mat_iff)
  then show ?thesis
    by (simp add: augmented_covariance_eq [OF P] is_mat_def)
qed

lemma AugmentedSigmaPoints_columns:
  fixes llt :: "mat \<Rightarrow> mat"
  assumes inv: "ukf_inv s"
  defines "X \<equiv> Xsig_aug' (AugmentedSigmaPoints llt s)"
    and "L \<equiv> llt (augmented_covariance s)"
  shows "length X = 15"
    and "X ! 0 = augmented_mean s"
    and "i < 7 \<Longrightarrow> X ! (i + 1) = vadd (augmented_mean s) (smult (sqrt 5) (L ! i))"
    and "i < 7 \<Longrightarrow> X ! (i + 8) = vsub (augmented_mean s) (smult (sqrt 5) (L ! i))"
proof -
  from inv have cfg: "n_aug' s = 7" "lambda' s = - 2" and sz: "sizes_ok s"
    by (simp_all add: ukf_inv_def config_values)
  have len: "length (Xsig_aug' s) = 15"
    using sz by (simp add: sizes_values)
  let ?a = "\<lambda>i. vadd (augmented_mean s) (smult (sqrt 5) (L ! i))"
  let ?b = "\<lambda>i. vsub (augmented_mean s) (smult (sqrt 5) (L ! i))"
  let ?X0 = "(Xsig_aug' s)[0 := augmented_mean s]"
  have X: "X = fold (\<lambda>i X. let X = set_col X (i + 1) (?a i) in set_col X (i + 1 + 7) (?b i))
                 [0..<7] ?X0"
    by (simp add: X_def L_def AugmentedSigmaPoints_def Let_def cfg col_def set_col_def)
  have loop: "length X = length ?X0 \<and>
         (\<forall>j<length ?X0. X ! j =
            (if 1 \<le> j \<and> j \<le> 7 then ?a (j - 1)
             else if 7 + 1 \<le> j \<and> j \<le> 7 + 7 then ?b (j - 1 - 7)
             else ?X0 ! j))"
    unfolding X by (rule reflect_loop) (simp_all add: len)
  from loop len show "length X = 15" by simp
  from loop len show "X ! 0 = augmented_mean s" by simp
  from loop len show "X ! (i + 1) = ?a i" if "i < 7" using that by simp
  from loop len show "X ! (i + 8) = ?b i" if "i < 7" using that by simp
qed

text \<open>
  C1. For every state of the filter, with \<open>L\<close> the 7 by 7 matrix that the Cholesky routine
  returns for the augmented covariance: the augmented mean is \<open>x_\<close> followed by two
  zeros; the augmented covariance has \<open>P_\<close> in its top-left 5 by 5 block, \<open>std_a_\<close> squared
  and \<open>std_yawdd_\<close> squared on the two added diagonal places and zero elsewhere;
  \<open>lambda_\<close> is \<open>3 - n_x_ = - 2\<close>; column 0 of \<open>Xsig_aug_\<close> is the augmented mean; and
  for every \<open>i < n_aug_ = 7\<close> column \<open>i + 1\<close> is the mean plus \<open>sqrt (lambda_ + n_aug_)\<close>
  times column \<open>i\<close> of \<open>L\<close>, column \<open>i + 1 + n_aug_\<close> is the mean minus the same vector,
  so the two are reflections of each other through the mean.
\<close>

theorem augmented_sigma_points:
  fixes llt :: "mat \<Rightarrow> mat"
  defines "X \<equiv> \<lambda>s. Xsig_aug' (AugmentedSigmaPoints llt s)"
    and "L \<equiv> \<lambda>s. llt (augmented_covariance s)"
  assumes "ukf_inv s" and "is_mat 7 7 (llt (augmented_covariance s))" and "i < 7"
  shows "augmented_mean s = x' s @ [0, 0] \<and>
    augmented_covariance s =
      [P' s ! 0 @ [0, 0], P' s ! 1 @ [0, 0], P' s ! 2 @ [0, 0], P' s ! 3 @ [0, 0],
       P' s ! 4 @ [0, 0],
       [0, 0, 0, 0, 0, (std_a' s)\<^sup>2, 0],
       [0, 0, 0, 0, 0, 0, (std_yawdd' s)\<^sup>2]] \<and>
    lambda' s = 3 - real (n_x' s) \<and> lambda' s = - 2 \<and> n_aug' s = 7 \<and>
    col (X s) 0 = augmented_mean s \<and>
    col (X s) (i + 1) =
      vadd (augmented_mean s) (smult (sqrt (lambda' s + real (n_aug' s))) (col (L s) i)) \<and>
    col (X s) (i + 1 + n_aug' s) =
      vsub (augmented_mean s) (smult (sqrt (lambda' s + real (n_aug' s))) (col (L s) i)) \<and>
    (\<forall>r<7. col (X s) (i + 1) ! r - augmented_mean s ! r =
            - (col (X s) (i + 1 + n_aug' s) ! r - augmented_mean s ! r))"
proof -
  from assms(3) have cfg: "n_aug' s = 7" "lambda' s = - 2" "n_x' s = 5" and sz: "sizes_ok s"
    by (simp_all add: ukf_inv_def config_values)
  from sz have x: "length (x' s) = 5" and P: "is_mat 5 5 (P' s)"
    by (simp_all add: sizes_ok_def)
  from assms(4,5) have Li: "length (llt (augmented_covariance s) ! i) = 7"
    by (simp add: is_mat_iff)
  note cols = AugmentedSigmaPoints_columns [OF assms(3), where llt = llt]
  let ?m = "augmented_mean s"
  let ?Li = "llt (augmented_covariance s) ! i"
  have plus: "X s ! (i + 1) = vadd ?m (smult (sqrt 5) ?Li)"
    unfolding X_def by (rule cols(3) [OF assms(5)])
  have minus: "X s ! (i + 8) = vsub ?m (smult (sqrt 5) ?Li)"
    unfolding X_def by (rule cols(4) [OF assms(5)])
  have zero: "X s ! 0 = ?m"
    unfolding X_def by (rule cols(2))
  have lm: "length ?m = 7"
    using x by (rule length_augmented_mean)
  have refl: "\<forall>r<7. X s ! (i + 1) ! r - ?m ! r = - (X s ! (i + 8) ! r - ?m ! r)"
  proof (intro allI impI)
    fix r :: nat assume r: "r < 7"
    have "X s ! (i + 1) ! r = ?m ! r + sqrt 5 * ?Li ! r"
      unfolding plus using r lm Li by (simp add: vadd_nth smult_nth length_smult)
    moreover have "X s ! (i + 8) ! r = ?m ! r - sqrt 5 * ?Li ! r"
      unfolding minus using r lm Li by (simp add: vsub_nth smult_nth length_smult)
    ultimately show "X s ! (i + 1) ! r - ?m ! r = - (X s ! (i + 8) ! r - ?m ! r)"
      by simp
  qed
  have eight: "i + 1 + n_aug' s = i + 8"
    by (simp add: cfg)
  have root: "sqrt (lambda' s + real (n_aug' s)) = sqrt 5"
    by (simp add: cfg)
  show ?thesis
    unfolding col_def eight root
    using plus minus zero refl
    by (simp add: L_def cfg augmented_mean_eq [OF x] augmented_covariance_eq [OF P]
        power2_eq_square)
qed

theorem augmented_sigma_points_witness:
  "col (Xsig_aug' (AugmentedSigmaPoints llt_diag fresh_ukf)) 0 = [0, 0, 0, 0, 0, 0, 0] \<and>
   col (Xsig_aug' (AugmentedSigmaPoints llt_diag fresh_ukf)) 6 =
     [0, 0, 0, 0, 0, sqrt 5 * 3, 0] \<and>
   col (Xsig_aug' (AugmentedSigmaPoints llt_diag fresh_ukf)) 13 =
     [0, 0, 0, 0, 0, - (sqrt 5 * 3), 0]"
proof -
  have P: "is_mat 7 7 (llt_diag (augmented_covariance fresh_ukf))"
    using ukf_inv_fresh
    by (simp add: is_mat_llt_diag is_mat_augmented_covariance ukf_inv_def sizes_ok_def)
  have five: "(5::nat) < 7" by simp
  show ?thesis
    using augmented_sigma_points [where llt = llt_diag and s = fresh_ukf and i = 5, OF ukf_inv_fresh P five]
    by (simp add: col_def llt_diag_def fresh_values vadd_def vsub_def smult_def
        fresh_config)
qed

subsection \<open>Sigma-point propagation\<close>

lemma SigmaPointPrediction_body_column:
  assumes "i < length X"
  shows "SigmaPointPrediction_body dt A i X =
    X[i := (X ! i)
      [0 := (if \<bar>A ! i ! 4\<bar> > 0.001
             then A ! i ! 0 + A ! i ! 2 / A ! i ! 4 * (sin (A ! i ! 3 + A ! i ! 4 * dt) - sin (A ! i ! 3))
             else A ! i ! 0 + A ! i ! 2 * dt * cos (A ! i ! 3))
            + 0.5 * A ! i ! 5 * dt * dt * cos (A ! i ! 3),
       1 := (if \<bar>A ! i ! 4\<bar> > 0.001
             then A ! i ! 1 + A ! i ! 2 / A ! i ! 4 * (cos (A ! i ! 3) - cos (A ! i ! 3 + A ! i ! 4 * dt))
             else A ! i ! 1 + A ! i ! 2 * dt * sin (A ! i ! 3))
            + 0.5 * A ! i ! 5 * dt * dt * sin (A ! i ! 3),
       2 := A ! i ! 2 + A ! i ! 5 * dt,
       3 := A ! i ! 3 + A ! i ! 4 * dt + 0.5 * A ! i ! 6 * dt * dt,
       4 := A ! i ! 4 + A ! i ! 6 * dt]]"
  using assms
  by (simp add: SigmaPointPrediction_body_def Let_def set_coeff_def coeff_def split: if_splits)

lemma SigmaPointPrediction_column:
  assumes inv: "ukf_inv s" and i: "i < 15"
  shows "Xsig_pred' (SigmaPointPrediction dt s) ! i =
          [(if \<bar>Xsig_aug' s ! i ! 4\<bar> > 0.001
             then Xsig_aug' s ! i ! 0 + Xsig_aug' s ! i ! 2 / Xsig_aug' s ! i ! 4 * (sin (Xsig_aug' s ! i ! 3 + Xsig_aug' s ! i ! 4 * dt) - sin (Xsig_aug' s ! i ! 3))
             else Xsig_aug' s ! i ! 0 + Xsig_aug' s ! i ! 2 * dt * cos (Xsig_aug' s ! i ! 3))
            + 0.5 * Xsig_aug' s ! i ! 5 * dt * dt * cos (Xsig_aug' s ! i ! 3),
          (if \<bar>Xsig_aug' s ! i ! 4\<bar> > 0.001
             then Xsig_aug' s ! i ! 1 + Xsig_aug' s ! i ! 2 / Xsig_aug' s ! i ! 4 * (cos (Xsig_aug' s ! i ! 3) - cos (Xsig_aug' s ! i ! 3 + Xsig_aug' s ! i ! 4 * dt))
             else Xsig_aug' s ! i ! 1 + Xsig_aug' s ! i ! 2 * dt * sin (Xsig_aug' s ! i ! 3))
            + 0.5 * Xsig_aug' s ! i ! 5 * dt * dt * sin (Xsig_aug' s ! i ! 3),
          Xsig_aug' s ! i ! 2 + Xsig_aug' s ! i ! 5 * dt,
          Xsig_aug' s ! i ! 3 + Xsig_aug' s ! i ! 4 * dt + 0.5 * Xsig_aug' s ! i ! 6 * dt * dt,
          Xsig_aug' s ! i ! 4 + Xsig_aug' s ! i ! 6 * dt]"
    and "length (Xsig_pred' (SigmaPointPrediction dt s)) = 15"
proof -
  from inv have cfg: "n_aug' s = 7" and sz: "sizes_ok s"
    by (simp_all add: ukf_inv_def config_values)
  have len: "length (Xsig_pred' s) = 15" and leni: "length (Xsig_pred' s ! i) = 5"
    using sz i by (simp_all add: sizes_values)
  have n: "2 * n_aug' s + 1 = 15" by (simp add: cfg)
  note loop = fold_column_loop [where f = "SigmaPointPrediction_body dt (Xsig_aug' s)"
      and X = "Xsig_pred' s" and n = 15, OF SigmaPointPrediction_body_column]
  from loop len show "length (Xsig_pred' (SigmaPointPrediction dt s)) = 15"
    by (simp add: SigmaPointPrediction_def cfg)
  from loop len i leni show "Xsig_pred' (SigmaPointPrediction dt s) ! i = [
          (if \<bar>Xsig_aug' s ! i ! 4\<bar> > 0.001
             then Xsig_aug' s ! i ! 0 + Xsig_aug' s ! i ! 2 / Xsig_aug' s ! i ! 4 * (sin (Xsig_aug' s ! i ! 3 + Xsig_aug' s ! i ! 4 * dt) - sin (Xsig_aug' s ! i ! 3))
             else Xsig_aug' s ! i ! 0 + Xsig_aug' s ! i ! 2 * dt * cos (Xsig_aug' s ! i ! 3))
            + 0.5 * Xsig_aug' s ! i ! 5 * dt * dt * cos (Xsig_aug' s ! i ! 3),
          (if \<bar>Xsig_aug' s ! i ! 4\<bar> > 0.001
             then Xsig_aug' s ! i ! 1 + Xsig_aug' s ! i ! 2 / Xsig_aug' s ! i ! 4 * (cos (Xsig_aug' s ! i ! 3) - cos (Xsig_aug' s ! i ! 3 + Xsig_aug' s ! i ! 4 * dt))
             else Xsig_aug' s ! i ! 1 + Xsig_aug' s ! i ! 2 * dt * sin (Xsig_aug' s ! i ! 3))
            + 0.5 * Xsig_aug' s ! i ! 5 * dt * dt * sin (Xsig_aug' s ! i ! 3),
          Xsig_aug' s ! i ! 2 + Xsig_aug' s ! i ! 5 * dt,
          Xsig_aug' s ! i ! 3 + Xsig_aug' s ! i ! 4 * dt + 0.5 * Xsig_aug' s ! i ! 6 * dt * dt,
          Xsig_aug' s ! i ! 4 + Xsig_aug' s ! i ! 6 * dt]"
    by (simp add: SigmaPointPrediction_def cfg list5_update del: list_update.simps)
qed

text \<open>
  C2. For every column \<open>i\<close> of \<open>Xsig_aug_\<close>, read as
  \<open>(p_x, p_y, v, yaw, yawd, nu_a, nu_yawdd)\<close>, and every \<open>delta_t\<close>, column \<open>i\<close> of \<open>Xsig_pred_\<close>
  after \<open>SigmaPointPrediction\<close> holds: the position by the curved-path formulas exactly when
  \<open>\<bar>yawd\<bar> > 0.001\<close> and by the straight-line formulas otherwise, plus the noise terms
  \<open>0.5 * nu_a * delta_t\<^sup>2 * cos yaw\<close> and \<open>0.5 * nu_a * delta_t\<^sup>2 * sin yaw\<close>; the speed
  \<open>v + nu_a * delta_t\<close>; the heading \<open>yaw + yawd * delta_t + 0.5 * nu_yawdd * delta_t\<^sup>2\<close>;
  and the yaw rate \<open>yawd + nu_yawdd * delta_t\<close>.
\<close>

theorem ctrv_propagation:
  assumes "ukf_inv s" and "i < 15"
    and "col (Xsig_aug' s) i = [p_x, p_y, v, yaw, yawd, nu_a, nu_yawdd]"
  shows "col (Xsig_pred' (SigmaPointPrediction delta_t s)) i =
     [(if \<bar>yawd\<bar> > 1 / 1000
       then p_x + (v / yawd) * (sin (yaw + yawd * delta_t) - sin yaw)
       else p_x + v * delta_t * cos yaw) + 0.5 * nu_a * delta_t\<^sup>2 * cos yaw,
      (if \<bar>yawd\<bar> > 1 / 1000
       then p_y + (v / yawd) * (cos yaw - cos (yaw + yawd * delta_t))
       else p_y + v * delta_t * sin yaw) + 0.5 * nu_a * delta_t\<^sup>2 * sin yaw,
      v + nu_a * delta_t,
      yaw + yawd * delta_t + 0.5 * nu_yawdd * delta_t\<^sup>2,
      yawd + nu_yawdd * delta_t]"
  using assms(3) SigmaPointPrediction_column(1) [OF assms(1) assms(2), of delta_t]
  by (simp add: col_def power2_eq_square)

theorem ctrv_propagation_witness:
  "col (Xsig_pred' (SigmaPointPrediction 1
         (fresh_ukf\<lparr>Xsig_aug' := replicate 15 [1, 2, 3, 0, 1, 0, 0]\<rparr>))) 0 =
     [1 + 3 * sin 1, 2 + 3 * (1 - cos 1), 3, 1, 1] \<and>
   col (Xsig_pred' (SigmaPointPrediction 2
         (fresh_ukf\<lparr>Xsig_aug' := replicate 15 [1, 2, 3, 0, 0, 4, 6]\<rparr>))) 0 =
     [15, 2, 11, 12, 12]"
proof -
  have inv1: "ukf_inv (fresh_ukf\<lparr>Xsig_aug' := replicate 15 [1, 2, 3, 0, 1, 0, 0]\<rparr>)"
    by (rule ukf_inv_sigma_update(1) [OF ukf_inv_fresh]) (simp add: is_mat_iff)
  have inv2: "ukf_inv (fresh_ukf\<lparr>Xsig_aug' := replicate 15 [1, 2, 3, 0, 0, 4, 6]\<rparr>)"
    by (rule ukf_inv_sigma_update(1) [OF ukf_inv_fresh]) (simp add: is_mat_iff)
  show ?thesis
    using ctrv_propagation [OF inv1, of 0 1 2 3 0 1 0 0 1] ctrv_propagation [OF inv2, of 0 1 2 3 0 0 4 6 2]
    by (simp add: col_def)
qed

subsection \<open>Predicted mean\<close>

text \<open>The accumulation loop \<^verbatim>\<open>x = x + w(i) * X.col(i)\<close> computes the weighted sum.\<close>

lemma fold_weighted_sum:
  assumes z: "length z = m" and cols: "\<forall>i<n. length (X ! i) = m"
  shows "fold (\<lambda>i x. vadd x (smult (w i) (col X i))) [0..<n] z =
         map (\<lambda>r. z ! r + (\<Sum>i<n. w i * X ! i ! r)) [0..<m]"
  using cols
proof (induction n)
  case 0
  with z show ?case by (auto intro: nth_equalityI)
next
  case (Suc n)
  then have IH: "fold (\<lambda>i x. vadd x (smult (w i) (col X i))) [0..<n] z =
         map (\<lambda>r. z ! r + (\<Sum>i<n. w i * X ! i ! r)) [0..<m]"
    and n: "length (X ! n) = m"
    by simp_all
  have "fold (\<lambda>i x. vadd x (smult (w i) (col X i))) [0..<Suc n] z =
        vadd (map (\<lambda>r. z ! r + (\<Sum>i<n. w i * X ! i ! r)) [0..<m]) (smult (w n) (col X n))"
    by (simp only: upt_Suc_append [OF le0] fold_append fold_simps o_apply IH)
  also have "\<dots> = map (\<lambda>r. z ! r + (\<Sum>i<Suc n. w i * X ! i ! r)) [0..<m]"
    by (rule nth_equalityI) (simp_all add: n col_def vadd_def smult_def algebra_simps)
  finally show ?case .
qed

lemma sum_15_split:
  fixes f :: "nat \<Rightarrow> real"
  shows "(\<Sum>i<15. f i) = f 0 + (\<Sum>i<7. f (i + 1)) + (\<Sum>i<7. f (i + 8))"
  by (simp add: eval_nat_numeral)

text \<open>The two sigma-point steps keep the invariant, given a 7 by 7 Cholesky factor.\<close>

lemma AugmentedSigmaPoints_frame:
  "AugmentedSigmaPoints llt s = s\<lparr>Xsig_aug' := Xsig_aug' (AugmentedSigmaPoints llt s)\<rparr>"
  by (simp add: AugmentedSigmaPoints_def Let_def)

lemma SigmaPointPrediction_frame:
  "SigmaPointPrediction dt s = s\<lparr>Xsig_pred' := Xsig_pred' (SigmaPointPrediction dt s)\<rparr>"
  by (simp add: SigmaPointPrediction_def)

lemma is_mat_AugmentedSigmaPoints:
  assumes inv: "ukf_inv s" and L: "is_mat 7 7 (llt (augmented_covariance s))"
  shows "is_mat 7 15 (Xsig_aug' (AugmentedSigmaPoints llt s))"
proof -
  note cols = AugmentedSigmaPoints_columns [OF inv, where llt = llt]
  from inv have m: "length (augmented_mean s) = 7"
    by (simp add: ukf_inv_def sizes_ok_def length_augmented_mean)
  have "length (Xsig_aug' (AugmentedSigmaPoints llt s) ! j) = 7" if j: "j < 15" for j
  proof -
    consider "j = 0" | i where "i < 7" "j = i + 1" | i where "i < 7" "j = i + 8"
      using j by (cases "j = 0"; cases "j \<le> 7") (auto intro: that(2) [of "j - 1"] that(3) [of "j - 8"])
    then show ?thesis
    proof cases
      case 1
      then show ?thesis by (simp add: cols(2) m)
    next
      case 2
      with L have "length (llt (augmented_covariance s) ! i) = 7" by (simp add: is_mat_iff)
      with 2 show ?thesis by (simp only: cols(3)) (simp add: length_vadd length_smult m)
    next
      case 3
      with L have "length (llt (augmented_covariance s) ! i) = 7" by (simp add: is_mat_iff)
      with 3 show ?thesis by (simp only: cols(4)) (simp add: length_vsub length_smult m)
    qed
  qed
  with cols(1) show ?thesis by (simp add: is_mat_iff)
qed

lemma ukf_inv_AugmentedSigmaPoints:
  assumes "ukf_inv s" and "is_mat 7 7 (llt (augmented_covariance s))"
  shows "ukf_inv (AugmentedSigmaPoints llt s)"
  by (subst AugmentedSigmaPoints_frame)
    (rule ukf_inv_sigma_update(1) [OF assms(1) is_mat_AugmentedSigmaPoints [where llt = llt and s = s, OF assms]])

lemma is_mat_SigmaPointPrediction:
  assumes "ukf_inv s"
  shows "is_mat 5 15 (Xsig_pred' (SigmaPointPrediction dt s))"
proof -
  have "length (Xsig_pred' (SigmaPointPrediction dt s)) = 15"
    by (rule SigmaPointPrediction_column(2) [OF assms, of 0]) simp
  then show ?thesis
    by (simp add: is_mat_iff SigmaPointPrediction_column(1) [OF assms])
qed

lemma ukf_inv_SigmaPointPrediction:
  assumes "ukf_inv s"
  shows "ukf_inv (SigmaPointPrediction dt s)"
  by (subst SigmaPointPrediction_frame)
    (rule ukf_inv_sigma_update(2) [OF assms is_mat_SigmaPointPrediction [OF assms]])

lemma predicted_mean:
  assumes "ukf_inv s"
  shows "x' (PredictMeanAndCovariance s) =
         map (\<lambda>r. \<Sum>i<15. weights' s ! i * Xsig_pred' s ! i ! r) [0..<5]"
proof -
  from assms have cfg: "n_aug' s = 7" and sz: "sizes_ok s"
    by (simp_all add: ukf_inv_def config_values)
  have z: "length (vfill (x' s) 0) = 5"
    using sz by (simp add: vfill_def sizes_values)
  have cols: "\<forall>i<15. length (Xsig_pred' s ! i) = 5"
    using sz by (simp add: sizes_values)
  have zero: "vfill (x' s) 0 ! r = 0" if "r < 5" for r
    using that sz by (simp add: vfill_def sizes_values)
  have "x' (PredictMeanAndCovariance s) =
        fold (\<lambda>i x. vadd x (smult (weights' s ! i) (col (Xsig_pred' s) i))) [0..<15]
          (vfill (x' s) 0)"
    by (simp add: PredictMeanAndCovariance_def Let_def cfg)
  also have "\<dots> = map (\<lambda>r. vfill (x' s) 0 ! r + (\<Sum>i<15. weights' s ! i * Xsig_pred' s ! i ! r))
                     [0..<5]"
    by (rule fold_weighted_sum [OF z cols])
  also have "\<dots> = map (\<lambda>r. \<Sum>i<15. weights' s ! i * Xsig_pred' s ! i ! r) [0..<5]"
    by (rule map_cong) (simp_all add: zero)
  finally show ?thesis .
qed

lemma weights_nth:
  assumes "config_ok s"
  shows "weights' s ! 0 = - 2 / 5" and "0 < j \<Longrightarrow> j < 15 \<Longrightarrow> weights' s ! j = 1 / 10"
  by (simp_all add: config_values [OF assms] nth_Cons')

lemma stationary_column:
  assumes "ukf_inv s" and "i < 15" and "r < 5"
  shows "Xsig_pred' (SigmaPointPrediction 0 s) ! i ! r = Xsig_aug' s ! i ! r"
proof -
  from assms(3) consider "r = 0" | "r = 1" | "r = 2" | "r = 3" | "r = 4"
    by linarith
  then show ?thesis
    by cases (simp_all add: SigmaPointPrediction_column(1) [OF assms(1,2)])
qed

lemma PredictMeanAndCovariance_frame:
  "Xsig_pred' (PredictMeanAndCovariance s) = Xsig_pred' s"
  "Xsig_aug' (PredictMeanAndCovariance s) = Xsig_aug' s"
  by (simp_all add: PredictMeanAndCovariance_def Let_def)

lemma SigmaPointPrediction_keeps_aug:
  "Xsig_aug' (SigmaPointPrediction dt s) = Xsig_aug' s"
  by (simp add: SigmaPointPrediction_def)

lemma take5_of_7: "length c = 7 \<Longrightarrow> take 5 c = [c ! 0, c ! 1, c ! 2, c ! 3, c ! 4]"
  by (auto simp add: length_Suc_conv eval_nat_numeral)

lemma stationary_point:
  assumes "ukf_inv s" and "i < 15"
  shows "col (Xsig_pred' (SigmaPointPrediction 0 s)) i = take 5 (col (Xsig_aug' s) i)"
proof -
  from assms have "length (Xsig_aug' s ! i) = 7"
    by (simp add: ukf_inv_def sizes_values)
  then show ?thesis
    by (simp add: col_def take5_of_7 SigmaPointPrediction_column(1) [OF assms])
qed

lemma weights_sum: "config_ok s \<Longrightarrow> sum_list (weights' s) = 1"
  by (simp add: config_values eval_nat_numeral)

lemma zero_time_mean:
  fixes llt :: "mat \<Rightarrow> mat"
  assumes inv: "ukf_inv s" and L: "is_mat 7 7 (llt (augmented_covariance s))"
  shows "x' (Prediction llt 0 s) = x' s"
proof -
  let ?s1 = "AugmentedSigmaPoints llt s"
  let ?s2 = "SigmaPointPrediction 0 ?s1"
  let ?A = "Xsig_aug' ?s1"
  let ?m = "augmented_mean s"
  let ?L = "llt (augmented_covariance s)"
  have inv1: "ukf_inv ?s1"
    by (rule ukf_inv_AugmentedSigmaPoints [where llt = llt and s = s, OF inv L])
  have inv2: "ukf_inv ?s2"
    by (rule ukf_inv_SigmaPointPrediction [OF inv1])
  from inv have cfg: "config_ok s" and x: "length (x' s) = 5"
    by (simp_all add: ukf_inv_def sizes_ok_def)
  have w2: "weights' ?s2 = weights' s" and x1: "x' ?s1 = x' s"
    by (simp_all add: SigmaPointPrediction_def AugmentedSigmaPoints_def Let_def)
  note cols = AugmentedSigmaPoints_columns [OF inv, where llt = llt]
  have m: "length ?m = 7" "\<And>r. r < 5 \<Longrightarrow> ?m ! r = x' s ! r"
    using x by (simp_all add: augmented_mean_eq nth_append)
  have Li: "length (?L ! i) = 7" if "i < 7" for i
    using L that by (simp add: is_mat_iff)
  have coord: "(\<Sum>i<15. weights' s ! i * Xsig_pred' ?s2 ! i ! r) = x' s ! r" if r: "r < 5" for r
  proof -
    have "(\<Sum>i<15. weights' s ! i * Xsig_pred' ?s2 ! i ! r) = (\<Sum>i<15. weights' s ! i * ?A ! i ! r)"
      by (rule sum.cong) (simp_all add: stationary_column [OF inv1 _ r])
    also have "\<dots> = weights' s ! 0 * ?A ! 0 ! r + (\<Sum>i<7. weights' s ! (i + 1) * ?A ! (i + 1) ! r)
                     + (\<Sum>i<7. weights' s ! (i + 8) * ?A ! (i + 8) ! r)"
      by (rule sum_15_split)
    also have "(\<Sum>i<7. weights' s ! (i + 1) * ?A ! (i + 1) ! r) =
               (\<Sum>i<7. 1 / 10 * (?m ! r + sqrt 5 * ?L ! i ! r))"
    proof (rule sum.cong)
      fix i :: nat assume "i \<in> {..<7}"
      then have i: "i < 7" by simp
      with r m(1) Li [OF i]
      show "weights' s ! (i + 1) * ?A ! (i + 1) ! r = 1 / 10 * (?m ! r + sqrt 5 * ?L ! i ! r)"
        by (simp only: cols(3) [OF i]) (simp add: weights_nth [OF cfg] vadd_nth smult_nth length_smult)
    qed simp
    also have "(\<Sum>i<7. weights' s ! (i + 8) * ?A ! (i + 8) ! r) =
               (\<Sum>i<7. 1 / 10 * (?m ! r - sqrt 5 * ?L ! i ! r))"
    proof (rule sum.cong)
      fix i :: nat assume "i \<in> {..<7}"
      then have i: "i < 7" by simp
      with r m(1) Li [OF i]
      show "weights' s ! (i + 8) * ?A ! (i + 8) ! r = 1 / 10 * (?m ! r - sqrt 5 * ?L ! i ! r)"
        by (simp only: cols(4) [OF i]) (simp add: weights_nth [OF cfg] vsub_nth smult_nth length_smult)
    qed simp
    also have "weights' s ! 0 * ?A ! 0 ! r + (\<Sum>i<7. 1 / 10 * (?m ! r + sqrt 5 * ?L ! i ! r))
                 + (\<Sum>i<7. 1 / 10 * (?m ! r - sqrt 5 * ?L ! i ! r)) = ?m ! r"
      by (simp add: cols(2) weights_nth [OF cfg] sum.distrib sum_subtractf algebra_simps)
    finally show ?thesis
      by (simp add: m(2) [OF r])
  qed
  have "x' (Prediction llt 0 s) = map (\<lambda>r. \<Sum>i<15. weights' s ! i * Xsig_pred' ?s2 ! i ! r) [0..<5]"
    by (simp add: Prediction_def predicted_mean [OF inv2] w2)
  also have "\<dots> = map (\<lambda>r. x' s ! r) [0..<5]"
    by (rule map_cong) (simp_all add: coord)
  also have "\<dots> = x' s"
    using x by (auto intro: nth_equalityI)
  finally show ?thesis .
qed

lemma ukf_inv_tracking: "ukf_inv tracking_ukf"
  using ukf_inv_fresh by (simp add: tracking_ukf_def ukf_inv_def config_ok_def sizes_ok_def)

lemma tracking_values:
  "x' tracking_ukf = [1, 1, 0, 0, 0]" "P' tracking_ukf = P' fresh_ukf"
  "is_initialized' tracking_ukf" "time' tracking_ukf = 0"
  "use_laser' tracking_ukf" "use_radar' tracking_ukf"
  by (simp_all add: tracking_ukf_def fresh_ukf_def UKF_flags)

lemma is_mat_llt_diag_tracking: "is_mat 7 7 (llt_diag (augmented_covariance tracking_ukf))"
  using ukf_inv_tracking
  by (simp add: is_mat_llt_diag is_mat_augmented_covariance ukf_inv_def sizes_ok_def)

text \<open>
  C9. For every state of the filter, running the prediction step with \<open>delta_t = 0\<close>
  leaves the mean as it was: every predicted sigma point is the first five coefficients of
  its augmented sigma point, the weights sum to 1, and in the weighted sum the two
  reflected terms of each Cholesky column cancel. Over the reals the equality is exact. It
  needs no more of the Cholesky routine than a 7 by 7 result, which a positive-definite
  augmented covariance gives.
\<close>

theorem zero_time_prediction_keeps_mean:
  fixes llt :: "mat \<Rightarrow> mat"
  assumes inv: "ukf_inv s" and L: "is_mat 7 7 (llt (augmented_covariance s))"
  shows "x' (Prediction llt 0 s) = x' s \<and>
         (\<forall>i<15. col (Xsig_pred' (Prediction llt 0 s)) i =
                  take 5 (col (Xsig_aug' (Prediction llt 0 s)) i)) \<and>
         sum_list (weights' s) = 1"
proof -
  have inv1: "ukf_inv (AugmentedSigmaPoints llt s)"
    by (rule ukf_inv_AugmentedSigmaPoints [where llt = llt and s = s, OF inv L])
  have "\<forall>i<15. col (Xsig_pred' (Prediction llt 0 s)) i =
                  take 5 (col (Xsig_aug' (Prediction llt 0 s)) i)"
    by (simp add: Prediction_def PredictMeanAndCovariance_frame stationary_point [OF inv1]
        SigmaPointPrediction_keeps_aug)
  moreover from inv have "sum_list (weights' s) = 1"
    by (simp add: ukf_inv_def weights_sum)
  ultimately show ?thesis
    using zero_time_mean [where llt = llt and s = s, OF inv L] by simp
qed

theorem zero_time_prediction_keeps_mean_witness:
  "x' (Prediction llt_diag 0 tracking_ukf) = [1, 1, 0, 0, 0] \<and>
   col (Xsig_pred' (Prediction llt_diag 0 tracking_ukf)) 3 =
     take 5 (col (Xsig_aug' (Prediction llt_diag 0 tracking_ukf)) 3)"
  using zero_time_prediction_keeps_mean
    [where llt = llt_diag and s = tracking_ukf, OF ukf_inv_tracking is_mat_llt_diag_tracking]
  by (simp add: tracking_values)

subsection \<open>Sizes and coefficients of sums, products and transposes\<close>

text \<open>The matrix operations of the model, coefficient by coefficient.\<close>

lemma length_mvmul: "length (mvmul A v) = rows A"
  by (simp add: mvmul_def)

lemma is_mat_mmul: "is_mat r k A \<Longrightarrow> 0 < k \<Longrightarrow> length B = c \<Longrightarrow> is_mat r c (mmul A B)"
  by (simp add: is_mat_iff [of r c] mmul_def length_mvmul rows_is_mat)

lemma is_mat_mtranspose: "is_mat r c M \<Longrightarrow> 0 < c \<Longrightarrow> is_mat c r (mtranspose M)"
  by (simp add: is_mat_iff [of c r] mtranspose_def row_def rows_is_mat) (simp add: is_mat_iff)

lemma is_mat_madd: "is_mat r c A \<Longrightarrow> is_mat r c B \<Longrightarrow> is_mat r c (madd A B)"
  by (simp add: is_mat_iff madd_def length_vadd)

lemma is_mat_msub: "is_mat r c A \<Longrightarrow> is_mat r c B \<Longrightarrow> is_mat r c (msub A B)"
  by (simp add: is_mat_iff msub_def length_vsub)

lemma is_mat_Identity: "is_mat n n (Identity n)"
  by (simp add: is_mat_iff Identity_def)

lemma is_mat_length: "is_mat r c M \<Longrightarrow> length M = c"
  by (simp add: is_mat_iff)

lemma sum_list_upt: "(\<Sum>k\<leftarrow>[0..<n]. f k) = (\<Sum>k<n. f k)"
  by (simp add: interv_sum_list_conv_sum_set_nat atLeast0LessThan)

lemma mvmul_nth:
  assumes "is_mat r k A" and "0 < k" and "length v = k" and "i < r"
  shows "mvmul A v ! i = (\<Sum>l<k. coeff A i l * v ! l)"
  using assms by (simp add: mvmul_def rows_is_mat sum_list_upt)

lemma coeff_mmul:
  assumes A: "is_mat r k A" and k: "0 < k" and B: "is_mat k c B" and i: "i < r" and j: "j < c"
  shows "coeff (mmul A B) i j = (\<Sum>l<k. coeff A i l * coeff B l j)"
proof -
  from B j have len: "length B = c" "length (B ! j) = k"
    by (simp_all add: is_mat_iff)
  have "coeff (mmul A B) i j = mvmul A (B ! j) ! i"
    using len j by (simp add: coeff_def mmul_def)
  also have "\<dots> = (\<Sum>l<k. coeff A i l * (B ! j) ! l)"
    by (rule mvmul_nth [OF A k len(2) i])
  also have "\<dots> = (\<Sum>l<k. coeff A i l * coeff B l j)"
    by (simp add: coeff_def)
  finally show ?thesis .
qed


lemma coeff_msub:
  assumes "is_mat r c A" and "is_mat r c B" and "i < r" and "j < c"
  shows "coeff (msub A B) i j = coeff A i j - coeff B i j"
  using assms by (simp add: coeff_def msub_def vsub_def is_mat_iff)

lemma coeff_madd:
  assumes "is_mat r c A" and "is_mat r c B" and "i < r" and "j < c"
  shows "coeff (madd A B) i j = coeff A i j + coeff B i j"
  using assms by (simp add: coeff_def madd_def vadd_def is_mat_iff)

lemma coeff_Identity: "i < n \<Longrightarrow> j < n \<Longrightarrow> coeff (Identity n) i j = (if i = j then 1 else 0)"
  by (simp add: coeff_def Identity_def)

subsection \<open>Lidar update\<close>

lemma of_rows_H: "of_rows [[1, 0, 0, 0, 0], [0, 1, 0, 0, 0]] = [[1, 0], [0, 1], [0, 0], [0, 0], [0, 0]]"
  by (simp add: of_rows_def mtranspose_def rows_def row_def upt_rec)

lemma of_rows_2x2: "of_rows [[a, b], [c, d]] = [[a, c], [b, d]]"
  by (simp add: of_rows_def mtranspose_def rows_def row_def upt_rec)

lemma list2: "length z = 2 \<Longrightarrow> z = [z ! 0, z ! 1]"
  by (auto simp add: length_Suc_conv eval_nat_numeral)

lemma list5: "length c = 5 \<Longrightarrow> c = [c ! 0, c ! 1, c ! 2, c ! 3, c ! 4]"
  by (auto simp add: length_Suc_conv eval_nat_numeral)

lemma H_times_vector:
  assumes "length v = 5"
  shows "mvmul [[1, 0], [0, 1], [0, 0], [0, 0], [0, 0]] v = [v ! 0, v ! 1]"
  using assms by (simp add: mvmul_def rows_def coeff_def upt_rec)

lemma times_H_transpose:
  assumes "length A = 5" and "length (A ! 0) = n"
  shows "mmul A (mtranspose [[1, 0], [0, 1], [0, 0], [0, 0], [0, 0]]) =
         [map (\<lambda>i. A ! 0 ! i) [0..<rows A], map (\<lambda>i. A ! 1 ! i) [0..<rows A]]"
  by (simp add: mmul_def mtranspose_def rows_def row_def mvmul_def coeff_def upt_rec [of 0 5] upt_rec [of 1 5]
      upt_rec [of 2 5]  upt_rec [of 3 5] upt_rec [of 4 5] upt_rec [of 5 5] upt_rec [of 0 2] upt_rec [of 1 2] upt_rec [of 2 2])

lemma ukf_inv_correlated: "ukf_inv correlated_ukf"
  using ukf_inv_tracking
  by (simp add: correlated_ukf_def ukf_inv_def config_ok_def sizes_ok_def is_mat_def)

lemma keeps_size_inverse_diag: "keeps_size inverse_diag"
  by (auto simp add: keeps_size_def inverse_diag_def is_mat_iff rows_def split: list.splits)

lemma map_nth_upt: "length c = n \<Longrightarrow> map (\<lambda>i. c ! i) [0..<n] = c"
  by (auto intro: nth_equalityI)

text \<open>
  C5. For every state of the filter and every lidar sample with its two raw values \<open>z\<close>,
  \<open>UpdateLidar\<close> computes the linear Kalman equations with the observation matrix \<open>H\<close> of
  rows \<open>(1, 0, 0, 0, 0)\<close> and \<open>(0, 1, 0, 0, 0)\<close> and the noise covariance \<open>R\<close> with \<open>0.15\<^sup>2\<close>
  twice on the diagonal, which are what the members \<open>H_\<close> and \<open>RL_\<close> hold: residual
  \<open>y = z - H x\<close>, innovation covariance \<open>S = H P H\<^sup>T + R\<close>, gain \<open>K = P H\<^sup>T S\<^sup>-\<^sup>1\<close>, new mean
  \<open>x + K y\<close>, new covariance \<open>(I - K H) P\<close>, no other member changed and no angle
  normalized. Coefficient by coefficient: \<open>y\<close> is the difference of the two positions,
  \<open>S\<close> is the top-left 2 by 2 block of \<open>P\<close> plus \<open>R\<close>, \<open>K(i, j)\<close> is
  \<open>P(i, 0) Si(0, j) + P(i, 1) Si(1, j)\<close> for the inverse \<open>Si\<close> that the library returns for
  \<open>S\<close>, the new mean is \<open>x(i) + K(i, 0) y(0) + K(i, 1) y(1)\<close> and the new covariance is
  \<open>P(i, j) - (K(i, 0) P(0, j) + K(i, 1) P(1, j))\<close>.
\<close>

theorem lidar_update_is_linear_kalman:
  fixes minverse :: "mat \<Rightarrow> mat"
  assumes inv: "ukf_inv s" and raw: "length (raw_measurements' m) = 2"
    and lib: "keeps_size minverse"
  shows
   "let H = of_rows [[1, 0, 0, 0, 0], [0, 1, 0, 0, 0]];
        R = of_rows [[0.15\<^sup>2, 0], [0, 0.15\<^sup>2]];
        z = raw_measurements' m;
        x = x' s;
        P = P' s;
        y = vsub z (mvmul H x);
        S = madd (mmul (mmul H P) (mtranspose H)) R;
        Si = minverse S;
        K = mmul (mmul P (mtranspose H)) Si;
        s' = UpdateLidar minverse m s
    in H' s = H \<and> RL' s = R \<and>
       s' = s\<lparr>x' := vadd x (mvmul K y), P' := mmul (msub (Identity 5) (mmul K H)) P\<rparr> \<and>
       (\<forall>i<2. \<forall>j<5. coeff H i j = (if i = j then 1 else 0)) \<and>
       (\<forall>i<2. \<forall>j<2. coeff R i j = (if i = j then 0.15\<^sup>2 else 0)) \<and>
       y = [z ! 0 - x ! 0, z ! 1 - x ! 1] \<and>
       S = [[coeff P 0 0 + 0.15\<^sup>2, coeff P 1 0], [coeff P 0 1, coeff P 1 1 + 0.15\<^sup>2]] \<and>
       is_mat 5 2 K \<and>
       (\<forall>i<5. \<forall>j<2. coeff K i j = coeff P i 0 * coeff Si 0 j + coeff P i 1 * coeff Si 1 j) \<and>
       length (x' s') = 5 \<and>
       (\<forall>i<5. x' s' ! i = x ! i + (coeff K i 0 * y ! 0 + coeff K i 1 * y ! 1)) \<and>
       is_mat 5 5 (P' s') \<and>
       (\<forall>i<5. \<forall>j<5. coeff (P' s') i j =
          coeff P i j - (coeff K i 0 * coeff P 0 j + coeff K i 1 * coeff P 1 j))"
proof -
  let ?H = "[[1, 0], [0, 1], [0, 0], [0, 0], [0, 0]] :: mat"
  let ?R = "[[0.0225, 0], [0, 0.0225]] :: mat"
  let ?P = "P' s"
  let ?x = "x' s"
  let ?z = "raw_measurements' m"
  let ?S = "[[coeff ?P 0 0 + 0.15\<^sup>2, coeff ?P 1 0], [coeff ?P 0 1, coeff ?P 1 1 + 0.15\<^sup>2]]"
  let ?Si = "minverse ?S"
  let ?PHt = "mmul ?P (mtranspose ?H)"
  let ?K = "mmul ?PHt ?Si"
  let ?y = "[?z ! 0 - ?x ! 0, ?z ! 1 - ?x ! 1]"
  from inv have H: "H' s = ?H" and R: "RL' s = ?R" and sz: "sizes_ok s"
    by (simp_all add: ukf_inv_def config_values)
  have x: "length ?x = 5" and P: "length ?P = 5" and iP: "is_mat 5 5 ?P"
    and Pc: "length (?P ! 0) = 5" "length (?P ! 1) = 5" "length (?P ! 2) = 5"
      "length (?P ! 3) = 5" "length (?P ! 4) = 5"
    using sz by (simp_all add: sizes_values sizes_ok_def)
  have iH: "is_mat 2 5 ?H"
    by (simp add: is_mat_def)
  have R': "of_rows [[0.15\<^sup>2, 0], [0, 0.15\<^sup>2]] = ?R"
    by (simp add: of_rows_2x2 power2_eq_square)
  have z: "head 2 ?z = ?z"
    using raw by (simp add: head_def)
  have y: "vsub ?z (mvmul ?H ?x) = ?y"
    by (subst list2 [OF raw]) (simp add: H_times_vector [OF x] vsub_def)
  have HP: "mmul ?H ?P = [[?P ! 0 ! 0, ?P ! 0 ! 1], [?P ! 1 ! 0, ?P ! 1 ! 1],
       [?P ! 2 ! 0, ?P ! 2 ! 1], [?P ! 3 ! 0, ?P ! 3 ! 1], [?P ! 4 ! 0, ?P ! 4 ! 1]]"
    using Pc by (subst list5 [OF P]) (simp add: mmul_def H_times_vector)
  have S: "madd (mmul (mmul ?H ?P) (mtranspose ?H)) ?R = ?S"
    unfolding HP
    by (simp add: times_H_transpose [where n = 2] rows_def madd_def vadd_def coeff_def upt_rec
        power2_eq_square)
  have iS: "is_mat 2 2 ?S"
    by (simp add: is_mat_def)
  with lib have iSi: "is_mat 2 2 ?Si"
    by (simp add: keeps_size_def)
  have PHt: "?PHt = [?P ! 0, ?P ! 1]"
    using Pc P by (simp add: times_H_transpose [OF P Pc(1)] rows_is_mat [OF iP] map_nth_upt)
  have iPHt: "is_mat 5 2 ?PHt"
    using Pc by (simp add: PHt is_mat_def)
  have iK: "is_mat 5 2 ?K"
    using iSi by (simp add: is_mat_mmul [OF iPHt] is_mat_iff [of 2 2])
  have K: "coeff ?K i j = coeff ?P i 0 * coeff ?Si 0 j + coeff ?P i 1 * coeff ?Si 1 j"
    if "i < 5" "j < 2" for i j
  proof -
    have "coeff ?K i j = (\<Sum>l<2. coeff ?PHt i l * coeff ?Si l j)"
      by (rule coeff_mmul [OF iPHt _ iSi that]) simp
    also have "\<dots> = coeff ?PHt i 0 * coeff ?Si 0 j + coeff ?PHt i 1 * coeff ?Si 1 j"
      by (simp only: eval_nat_numeral sum.lessThan_Suc lessThan_0 sum.empty) simp
    also have "coeff ?PHt i 0 = coeff ?P i 0"
      unfolding PHt by (simp add: coeff_def)
    also have "coeff ?PHt i 1 = coeff ?P i 1"
      unfolding PHt by (simp add: coeff_def)
    finally show ?thesis .
  qed
  have iKH: "is_mat 5 5 (mmul ?K ?H)"
    by (rule is_mat_mmul [OF iK]) simp_all
  have KH: "coeff (mmul ?K ?H) i l = (if l = 0 then coeff ?K i 0 else if l = 1 then coeff ?K i 1 else 0)"
    if "i < 5" "l < 5" for i l
  proof -
    have "coeff (mmul ?K ?H) i l = (\<Sum>k<2. coeff ?K i k * coeff ?H k l)"
      by (rule coeff_mmul [OF iK _ iH that]) simp
    also have "\<dots> = coeff ?K i 0 * coeff ?H 0 l + coeff ?K i 1 * coeff ?H 1 l"
      by (simp only: eval_nat_numeral sum.lessThan_Suc lessThan_0 sum.empty) simp
    also have "\<dots> = (if l = 0 then coeff ?K i 0 else if l = 1 then coeff ?K i 1 else 0)"
    proof -
      from that consider "l = 0" | "l = 1" | "l = 2" | "l = 3" | "l = 4"
        by linarith
      then show ?thesis
        by cases (simp_all add: coeff_def [of ?H])
    qed
    finally show ?thesis .
  qed
  have iM: "is_mat 5 5 (msub (Identity 5) (mmul ?K ?H))"
    by (intro is_mat_msub is_mat_Identity iKH)
  have iP': "is_mat 5 5 (mmul (msub (Identity 5) (mmul ?K ?H)) ?P)"
    by (rule is_mat_mmul [OF iM _ P]) simp
  have P': "coeff (mmul (msub (Identity 5) (mmul ?K ?H)) ?P) i j =
        coeff ?P i j - (coeff ?K i 0 * coeff ?P 0 j + coeff ?K i 1 * coeff ?P 1 j)"
    if i: "i < 5" and j: "j < 5" for i j
  proof -
    have M: "coeff (msub (Identity 5) (mmul ?K ?H)) i l =
        (if i = l then 1 else 0) - (if l = 0 then coeff ?K i 0 else if l = 1 then coeff ?K i 1 else 0)"
      if "l < 5" for l
      by (simp only: coeff_msub [OF is_mat_Identity iKH i that] coeff_Identity [OF i that]
          KH [OF i that])
    have "coeff (mmul (msub (Identity 5) (mmul ?K ?H)) ?P) i j =
        (\<Sum>l<5. coeff (msub (Identity 5) (mmul ?K ?H)) i l * coeff ?P l j)"
      by (rule coeff_mmul [OF iM _ iP i j]) simp
    also have "\<dots> = (\<Sum>l<5. ((if i = l then 1 else 0) -
          (if l = 0 then coeff ?K i 0 else if l = 1 then coeff ?K i 1 else 0)) * coeff ?P l j)"
      by (rule sum.cong [OF refl]) (simp only: lessThan_iff M)
    also have "\<dots> = coeff ?P i j - (coeff ?K i 0 * coeff ?P 0 j + coeff ?K i 1 * coeff ?P 1 j)"
    proof -
      from i consider "i = 0" | "i = 1" | "i = 2" | "i = 3" | "i = 4"
        by linarith
      then show ?thesis
        by cases (simp_all add: eval_nat_numeral algebra_simps)
    qed
    finally show ?thesis .
  qed
  have rK: "rows ?K = 5"
    by (rule rows_is_mat [OF iK]) simp
  have lKy: "length (mvmul ?K ?y) = 5"
    by (simp only: length_mvmul rK)
  have lx: "length (vadd ?x (mvmul ?K ?y)) = 5"
    by (simp only: length_vadd lKy x)
  have xn: "vadd ?x (mvmul ?K ?y) ! i = ?x ! i + (coeff ?K i 0 * ?y ! 0 + coeff ?K i 1 * ?y ! 1)"
    if i: "i < 5" for i
  proof -
    have "vadd ?x (mvmul ?K ?y) ! i = ?x ! i + mvmul ?K ?y ! i"
      by (rule vadd_nth) (simp_all only: x lKy i)
    also have "mvmul ?K ?y ! i = (\<Sum>l<2. coeff ?K i l * ?y ! l)"
      by (rule mvmul_nth [OF iK _ _ i]) simp_all
    also have "\<dots> = coeff ?K i 0 * ?y ! 0 + coeff ?K i 1 * ?y ! 1"
      by (simp only: eval_nat_numeral sum.lessThan_Suc lessThan_0 sum.empty) simp
    finally show ?thesis .
  qed
  have upd: "UpdateLidar minverse m s =
      s\<lparr>x' := vadd ?x (mvmul ?K ?y), P' := mmul (msub (Identity 5) (mmul ?K ?H)) ?P\<rparr>"
    by (simp only: UpdateLidar_def Let_def H R z y S)
  have Hc: "\<forall>i<2. \<forall>j<5. coeff ?H i j = (if i = j then 1 else 0)"
    by (auto simp add: coeff_def less_Suc_eq eval_nat_numeral)
  have Rc: "\<forall>i<2. \<forall>j<2. coeff ?R i j = (if i = j then 0.15\<^sup>2 else 0)"
    by (auto simp add: coeff_def less_Suc_eq eval_nat_numeral power2_eq_square)
  show ?thesis
    unfolding Let_def of_rows_H R' y S
    using H R upd Hc Rc iK K lx xn iP' P'
    by (simp only: ukf.simps) simp
qed

text \<open>The update of \<open>correlated_ukf\<close> by the sample \<open>(1.1, 1.05)\<close>: the innovation
  covariance is \<open>209 / 400\<close> twice on the diagonal, and the correlation moves the speed.\<close>

theorem lidar_update_is_linear_kalman_witness:
  "ukf_inv correlated_ukf \<and> keeps_size inverse_diag \<and>
   x' (UpdateLidar inverse_diag
         \<lparr>sensor_type' = LASER, timestamp' = 100000, raw_measurements' = [1.1, 1.05]\<rparr>
         correlated_ukf) = [229 / 209, 219 / 209, 4 / 209, 0, 0] \<and>
   P' (UpdateLidar inverse_diag
         \<lparr>sensor_type' = LASER, timestamp' = 100000, raw_measurements' = [1.1, 1.05]\<rparr>
         correlated_ukf) =
     [[9 / 418, 0, 9 / 2090, 0, 0], [0, 9 / 418, 0, 0, 0], [9 / 2090, 0, 201 / 418, 0, 0],
      [0, 0, 0, 1 / 2, 0], [0, 0, 0, 0, 1 / 2]]"
proof -
  let ?m = "\<lparr>sensor_type' = LASER, timestamp' = 100000, raw_measurements' = [1.1, 1.05]\<rparr>"
  let ?H = "of_rows [[1, 0, 0, 0, 0], [0, 1, 0, 0, 0]]"
  let ?R = "of_rows [[0.15\<^sup>2, 0], [0, 0.15\<^sup>2]]"
  let ?P = "P' correlated_ukf"
  let ?x = "x' correlated_ukf"
  let ?K = "mmul (mmul ?P (mtranspose ?H))
              (inverse_diag (madd (mmul (mmul ?H ?P) (mtranspose ?H)) ?R))"
  have len: "length (raw_measurements' ?m) = 2"
    by simp
  have "UpdateLidar inverse_diag ?m correlated_ukf =
        correlated_ukf\<lparr>x' := vadd ?x (mvmul ?K (vsub (raw_measurements' ?m) (mvmul ?H ?x))),
          P' := mmul (msub (Identity 5) (mmul ?K ?H)) ?P\<rparr>"
    using lidar_update_is_linear_kalman [where minverse = inverse_diag and s = correlated_ukf and m = ?m,
        OF ukf_inv_correlated len keeps_size_inverse_diag]
    by (simp only: Let_def)
  then have x: "x' (UpdateLidar inverse_diag ?m correlated_ukf) =
        vadd ?x (mvmul ?K (vsub (raw_measurements' ?m) (mvmul ?H ?x)))"
    and P: "P' (UpdateLidar inverse_diag ?m correlated_ukf) =
        mmul (msub (Identity 5) (mmul ?K ?H)) ?P"
    by simp_all
  have "vadd ?x (mvmul ?K (vsub (raw_measurements' ?m) (mvmul ?H ?x))) =
        [229 / 209, 219 / 209, 4 / 209, 0, 0]"
    by code_simp
  moreover have "mmul (msub (Identity 5) (mmul ?K ?H)) ?P =
     [[9 / 418, 0, 9 / 2090, 0, 0], [0, 9 / 418, 0, 0, 0], [9 / 2090, 0, 201 / 418, 0, 0],
      [0, 0, 0, 1 / 2, 0], [0, 0, 0, 0, 1 / 2]]"
    by code_simp
  ultimately show ?thesis
    using x P ukf_inv_correlated keeps_size_inverse_diag by simp
qed

subsection \<open>Accumulation of outer products\<close>

lemma list3_update:
  "length c = 3 \<Longrightarrow> c[0 := a0, Suc 0 := a1, 2 := a2] = [a0, a1, a2]"
  by (auto simp add: length_Suc_conv eval_nat_numeral)

lemma fold_weighted_outer:
  assumes Z: "is_mat m k Z" and ab: "\<forall>i<n. length (a i) = m \<and> length (b i) = k"
  shows "fold (\<lambda>i A. madd A (outer (smult (w i) (a i)) (b i))) [0..<n] Z =
         map (\<lambda>c. map (\<lambda>r. Z ! c ! r + (\<Sum>i<n. w i * a i ! r * b i ! c)) [0..<m]) [0..<k]"
  using ab
proof (induction n)
  case 0
  from Z show ?case
    by (auto simp add: is_mat_iff intro!: nth_equalityI)
next
  case (Suc n)
  then have IH: "fold (\<lambda>i A. madd A (outer (smult (w i) (a i)) (b i))) [0..<n] Z =
         map (\<lambda>c. map (\<lambda>r. Z ! c ! r + (\<Sum>i<n. w i * a i ! r * b i ! c)) [0..<m]) [0..<k]"
    and n: "length (a n) = m" "length (b n) = k"
    by simp_all
  have "fold (\<lambda>i A. madd A (outer (smult (w i) (a i)) (b i))) [0..<Suc n] Z =
        madd (map (\<lambda>c. map (\<lambda>r. Z ! c ! r + (\<Sum>i<n. w i * a i ! r * b i ! c)) [0..<m]) [0..<k])
          (outer (smult (w n) (a n)) (b n))"
    by (simp only: upt_Suc_append [OF le0] fold_append fold_simps o_apply IH)
  also have "\<dots> = map (\<lambda>c. map (\<lambda>r. Z ! c ! r + (\<Sum>i<Suc n. w i * a i ! r * b i ! c)) [0..<m]) [0..<k]"
    by (auto simp add: n madd_def outer_def vadd_def smult_def algebra_simps intro!: nth_equalityI)
  finally show ?case .
qed

lemma length_normalize_coeff: "length (normalize_coeff k d) = length d"
  by (simp add: normalize_coeff_def)

lemma length_z_diff_at:
  "length (z_diff_at Z z i) = min (length (Z ! i)) (length z)"
  by (simp add: z_diff_at_def Let_def length_normalize_coeff length_vsub col_def)

lemma length_x_diff_at:
  "length (x_diff_at X x i) = min (length (X ! i)) (length x)"
  by (simp add: x_diff_at_def Let_def length_normalize_coeff length_vsub col_def)

lemma length_spec_radar_model: "length (spec_radar_model p) = 3"
  by (simp add: spec_radar_model_def Let_def)

subsection \<open>Radar update\<close>

text \<open>The three loops of \<open>PredictRadarMeasurement\<close> and the loop of \<open>UpdateRadar\<close> compute
  the measurement model of every column and the weighted sums of the specification.\<close>

lemma PredictRadarMeasurement_body_column:
  assumes "i < length Z"
  shows "PredictRadarMeasurement_body X i Z =
     Z[i := (Z ! i)[0 := spec_radar_model (X ! i) ! 0,
                    1 := spec_radar_model (X ! i) ! 1,
                    2 := spec_radar_model (X ! i) ! 2]]"
  using assms
  by (simp add: PredictRadarMeasurement_body_def Let_def set_coeff_def coeff_def
      spec_radar_model_def power2_eq_square algebra_simps)

text \<open>The first loop of \<open>PredictRadarMeasurement\<close>.\<close>

lemma radar_sigma_points:
  assumes inv: "ukf_inv s"
  shows "fold (PredictRadarMeasurement_body (Xsig_pred' s)) [0..<15] (Zsig' s) =
         map spec_radar_model (Xsig_pred' s)"
proof (rule nth_equalityI)
  let ?X = "Xsig_pred' s"
  let ?g = "\<lambda>i c. c[0 := spec_radar_model (?X ! i) ! 0, 1 := spec_radar_model (?X ! i) ! 1,
                     2 := spec_radar_model (?X ! i) ! 2]"
  let ?F = "fold (PredictRadarMeasurement_body ?X) [0..<15] (Zsig' s)"
  from inv have sz: "sizes_ok s"
    by (simp add: ukf_inv_def)
  have len: "length (Zsig' s) = 15" "length ?X = 15"
    and cols: "\<And>i. i < 15 \<Longrightarrow> length (Zsig' s ! i) = 3"
    using sz by (simp_all add: sizes_values)
  have fc: "length ?F = length (Zsig' s) \<and>
      (\<forall>j<length (Zsig' s). ?F ! j = (if j < 15 then ?g j (Zsig' s ! j) else Zsig' s ! j))"
    by (rule fold_column_loop [where f = "PredictRadarMeasurement_body ?X" and g = ?g and n = 15
          and X = "Zsig' s"])
      (simp_all add: PredictRadarMeasurement_body_column len)
  show "length ?F = length (map spec_radar_model ?X)"
    using fc len by simp
  fix i assume "i < length ?F"
  with fc len have i: "i < 15" by simp
  have "spec_radar_model (?X ! i) =
        [spec_radar_model (?X ! i) ! 0, spec_radar_model (?X ! i) ! 1, spec_radar_model (?X ! i) ! 2]"
    by (simp add: spec_radar_model_def Let_def)
  with fc len i cols [OF i]
  show "?F ! i = map spec_radar_model ?X ! i"
    by (simp add: list3_update del: list_update.simps)
qed

lemma PredictRadarMeasurement_result:
  assumes inv: "ukf_inv s" and z0: "length z0 = 3" and S0: "is_mat 3 3 S0"
  shows "PredictRadarMeasurement z0 S0 s =
       (let Zsig = map spec_radar_model (Xsig_pred' s);
            z_pred = spec_weighted_mean (weights' s) Zsig 3;
            S = madd (spec_weighted_outer (weights' s) (z_diff_at Zsig z_pred)
                        (z_diff_at Zsig z_pred) 3 3) (RR' s)
        in (s\<lparr>Zsig' := Zsig\<rparr>, z_pred, S))"
proof -
  let ?Z = "map spec_radar_model (Xsig_pred' s)"
  let ?w = "\<lambda>i. weights' s ! i"
  let ?zp = "spec_weighted_mean (weights' s) ?Z 3"
  from inv have cfg: "n_aug' s = 7" and sz: "sizes_ok s"
    by (simp_all add: ukf_inv_def config_values)
  have lenX: "length (Xsig_pred' s) = 15"
    using sz by (simp add: sizes_values)
  have Zcols: "\<forall>i<15. length (?Z ! i) = 3"
    using lenX by (simp add: length_spec_radar_model)
  have zfill: "length (vfill z0 0) = 3" "\<And>r. r < 3 \<Longrightarrow> vfill z0 0 ! r = 0"
    using z0 by (simp_all add: vfill_def)
  have mean: "fold (\<lambda>i z. vadd z (smult (?w i) (col ?Z i))) [0..<15] (vfill z0 0) = ?zp"
  proof -
    have "fold (\<lambda>i z. vadd z (smult (?w i) (col ?Z i))) [0..<15] (vfill z0 0) =
          map (\<lambda>r. vfill z0 0 ! r + (\<Sum>i<15. ?w i * ?Z ! i ! r)) [0..<3]"
      by (rule fold_weighted_sum [OF zfill(1) Zcols])
    also have "\<dots> = ?zp"
      unfolding spec_weighted_mean_def by (rule map_cong) (simp_all add: zfill(2))
    finally show ?thesis .
  qed
  have lzp: "length ?zp = 3"
    by (simp add: spec_weighted_mean_def)
  have Sfill: "mfill S0 0 = replicate 3 (replicate 3 0)"
    by (rule mfill_is_mat [OF S0])
  have zd: "\<forall>i<15. length (z_diff_at ?Z ?zp i) = 3 \<and> length (z_diff_at ?Z ?zp i) = 3"
    using Zcols lzp by (simp add: length_z_diff_at)
  have cov: "fold (\<lambda>i S. madd S (outer (smult (?w i) (z_diff_at ?Z ?zp i)) (z_diff_at ?Z ?zp i)))
               [0..<15] (mfill S0 0) =
             spec_weighted_outer (weights' s) (z_diff_at ?Z ?zp) (z_diff_at ?Z ?zp) 3 3"
  proof -
    have "fold (\<lambda>i S. madd S (outer (smult (?w i) (z_diff_at ?Z ?zp i)) (z_diff_at ?Z ?zp i)))
               [0..<15] (replicate 3 (replicate 3 0)) =
          map (\<lambda>c. map (\<lambda>r. replicate 3 (replicate 3 0) ! c ! r +
                 (\<Sum>i<15. ?w i * z_diff_at ?Z ?zp i ! r * z_diff_at ?Z ?zp i ! c)) [0..<3]) [0..<3]"
      by (rule fold_weighted_outer [OF is_mat_replicate zd])
    also have "\<dots> = spec_weighted_outer (weights' s) (z_diff_at ?Z ?zp) (z_diff_at ?Z ?zp) 3 3"
      unfolding spec_weighted_outer_def by (auto intro!: map_cong)
    finally show ?thesis by (simp only: Sfill)
  qed
  show ?thesis
    by (simp add: PredictRadarMeasurement_def radar_sigma_points [OF inv] Let_def cfg mean cov)
qed

lemma UpdateRadar_result:
  assumes inv: "ukf_inv s"
  shows
    "let w = weights' s;
         Zsig = map spec_radar_model (Xsig_pred' s);
         z_pred = spec_weighted_mean w Zsig 3;
         z_diff = z_diff_at Zsig z_pred;
         x_diff = x_diff_at (Xsig_pred' s) (x' s);
         S = madd (spec_weighted_outer w z_diff z_diff 3 3) (RR' s);
         Tc = spec_weighted_outer w x_diff z_diff 5 3;
         K = mmul Tc (minverse S);
         y = normalize_coeff 1 (vsub (raw_measurements' m) z_pred)
     in UpdateRadar minverse m s =
          s\<lparr>Zsig' := Zsig,
            x' := vadd (x' s) (mvmul K y),
            P' := msub (P' s) (mmul (mmul K S) (mtranspose K))\<rparr>"
proof -
  let ?w = "weights' s"
  let ?Z = "map spec_radar_model (Xsig_pred' s)"
  let ?zp = "spec_weighted_mean ?w ?Z 3"
  let ?zd = "z_diff_at ?Z ?zp"
  let ?xd = "x_diff_at (Xsig_pred' s) (x' s)"
  let ?S = "madd (spec_weighted_outer ?w ?zd ?zd 3 3) (RR' s)"
  let ?s1 = "s\<lparr>Zsig' := ?Z\<rparr>"
  from inv have cfg: "n_aug' s = 7" "n_x' s = 5" "n_z' s = 3"
    and sz: "sizes_ok s"
    by (simp_all add: ukf_inv_def config_values)
  have pred: "PredictRadarMeasurement (VectorXd 3) (MatrixXd 3 3) s = (?s1, ?zp, ?S)"
    by (simp add: PredictRadarMeasurement_result [OF inv _ is_mat_MatrixXd] VectorXd_def Let_def)
  have lens: "length (Xsig_pred' s) = 15" "length (x' s) = 5"
    "\<And>i. i < 15 \<Longrightarrow> length (Xsig_pred' s ! i) = 5"
    using sz by (simp_all add: sizes_values)
  have ab: "\<forall>i<15. length (?xd i) = 5 \<and> length (?zd i) = 3"
    using lens by (simp add: length_x_diff_at length_z_diff_at length_spec_radar_model
        spec_weighted_mean_def)
  have Tc0: "mfill (MatrixXd 5 3) 0 = replicate 3 (replicate 5 0)"
    by (rule mfill_is_mat [OF is_mat_MatrixXd])
  have Tc: "fold (\<lambda>i Tc. madd Tc (outer (smult (?w ! i) (?xd i)) (?zd i))) [0..<15]
              (mfill (MatrixXd 5 3) 0) = spec_weighted_outer ?w ?xd ?zd 5 3"
  proof -
    have "fold (\<lambda>i Tc. madd Tc (outer (smult (?w ! i) (?xd i)) (?zd i))) [0..<15]
              (replicate 3 (replicate 5 0)) =
          map (\<lambda>c. map (\<lambda>r. replicate 3 (replicate 5 0) ! c ! r +
                 (\<Sum>i<15. ?w ! i * ?xd i ! r * ?zd i ! c)) [0..<5]) [0..<3]"
      by (rule fold_weighted_outer [OF is_mat_replicate ab])
    also have "\<dots> = spec_weighted_outer ?w ?xd ?zd 5 3"
      unfolding spec_weighted_outer_def by (auto intro!: map_cong)
    finally show ?thesis by (simp only: Tc0)
  qed
  have "UpdateRadar minverse m s =
        ?s1\<lparr>x' := vadd (x' s) (mvmul (mmul (spec_weighted_outer ?w ?xd ?zd 5 3) (minverse ?S))
                         (normalize_coeff 1 (vsub (raw_measurements' m) ?zp))),
            P' := msub (P' s) (mmul (mmul (mmul (spec_weighted_outer ?w ?xd ?zd 5 3) (minverse ?S)) ?S)
                         (mtranspose (mmul (spec_weighted_outer ?w ?xd ?zd 5 3) (minverse ?S))))\<rparr>"
    by (simp add: UpdateRadar_def Let_def cfg(1-3) pred Tc del: upt_Suc)
  then show ?thesis
    unfolding Let_def by simp
qed

lemma is_mat_spec_weighted_outer: "is_mat m n (spec_weighted_outer w a b m n)"
  by (simp add: spec_weighted_outer_def is_mat_iff)

lemma coeff_spec_weighted_outer:
  "r < m \<Longrightarrow> c < n \<Longrightarrow>
   coeff (spec_weighted_outer w a b m n) r c = (\<Sum>i<15. w ! i * a i ! r * b i ! c)"
  by (simp add: spec_weighted_outer_def coeff_def)


text \<open>A difference of two vectors with coefficient \<open>k\<close> normalized.\<close>

lemma normalized_difference:
  assumes a: "length a = n" and b: "length b = n" and k: "k < n"
  shows "length (normalize_coeff k (vsub a b)) = n"
    and "\<forall>r<n. r \<noteq> k \<longrightarrow> normalize_coeff k (vsub a b) ! r = a ! r - b ! r"
    and "\<bar>normalize_coeff k (vsub a b) ! k\<bar> \<le> pi"
    and "\<exists>j::int. normalize_coeff k (vsub a b) ! k = a ! k - b ! k + 2 * pi * of_int j"
proof -
  have len: "length (vsub a b) = n"
    using a b by (simp add: length_vsub)
  show "length (normalize_coeff k (vsub a b)) = n"
    by (simp add: length_normalize_coeff len)
  show "\<forall>r<n. r \<noteq> k \<longrightarrow> normalize_coeff k (vsub a b) ! r = a ! r - b ! r"
    using a b by (simp add: normalize_coeff_def vsub_nth)
  have nk: "normalize_coeff k (vsub a b) ! k = angle_normalization (a ! k - b ! k)"
    using a b k len by (simp add: normalize_coeff_nth vsub_nth)
  show "\<bar>normalize_coeff k (vsub a b) ! k\<bar> \<le> pi"
    unfolding nk by (rule angle_normalization_abs)
  show "\<exists>j::int. normalize_coeff k (vsub a b) ! k = a ! k - b ! k + 2 * pi * of_int j"
    unfolding nk by (rule angle_normalization_turns)
qed


text \<open>Facts about the example state \<open>radar_example\<close>.\<close>

lemma ukf_inv_radar_example: "ukf_inv radar_example"
  using ukf_inv_tracking
  by (simp add: radar_example_def ukf_inv_def config_ok_def sizes_ok_def is_mat_def)





subsection \<open>Normalized angle differences where they are used\<close>

text \<open>The second loop of \<open>PredictMeanAndCovariance\<close> computes the weighted sum of the outer
  products of the differences to the new mean.\<close>

lemma predicted_covariance:
  assumes "ukf_inv s"
  shows "P' (PredictMeanAndCovariance s) =
         spec_weighted_outer (weights' s)
           (x_diff_at (Xsig_pred' s) (x' (PredictMeanAndCovariance s)))
           (x_diff_at (Xsig_pred' s) (x' (PredictMeanAndCovariance s))) 5 5"
proof -
  from assms have cfg: "n_aug' s = 7" and sz: "sizes_ok s"
    by (simp_all add: ukf_inv_def config_values)
  let ?x = "x' (PredictMeanAndCovariance s)"
  let ?d = "x_diff_at (Xsig_pred' s) ?x"
  have x: "length ?x = 5"
    by (simp add: predicted_mean [OF assms])
  have d: "\<forall>i<15. length (?d i) = 5 \<and> length (?d i) = 5"
    using sz x by (simp add: length_x_diff_at sizes_values)
  have P0: "mfill (P' s) 0 = replicate 5 (replicate 5 0)"
    using sz by (simp add: mfill_is_mat sizes_ok_def)
  have "P' (PredictMeanAndCovariance s) =
        fold (\<lambda>i P. madd P (outer (smult (weights' s ! i) (?d i)) (?d i))) [0..<15]
          (mfill (P' s) 0)"
    by (simp add: PredictMeanAndCovariance_def Let_def cfg)
  also have "\<dots> = map (\<lambda>c. map (\<lambda>r. replicate 5 (replicate 5 0) ! c ! r +
                 (\<Sum>i<15. weights' s ! i * ?d i ! r * ?d i ! c)) [0..<5]) [0..<5]"
    unfolding P0 by (rule fold_weighted_outer [OF is_mat_replicate d])
  also have "\<dots> = spec_weighted_outer (weights' s) ?d ?d 5 5"
    unfolding spec_weighted_outer_def by (auto intro!: map_cong)
  finally show ?thesis .
qed

text \<open>
  C3 (as amended). Every heading difference and bearing difference used in covariance
  recombination, cross-correlation and residual computation is, after the normalization
  step, a value in the closed interval from \<open>- pi\<close> to \<open>pi\<close>: none exceeds \<open>pi\<close> in
  magnitude. For every state of the filter and every radar sample: the covariance that
  \<open>PredictMeanAndCovariance\<close> writes is the weighted sum of the products of the coefficients
  of the differences \<open>x_diff i\<close> to the new mean, whose heading lies in the interval; the
  innovation covariance that \<open>PredictRadarMeasurement\<close> returns is the weighted sum over the
  differences \<open>z_diff i\<close>, whose bearing lies in the interval, plus \<open>RR_\<close>; the
  cross-correlation of \<open>UpdateRadar\<close> is the weighted sum over \<open>x_diff i\<close> and \<open>z_diff i\<close>,
  heading and bearing in the interval; and the update adds the gain times the residual
  \<open>y\<close>, whose bearing lies in the interval. Each normalized value differs from the plain
  difference by a whole number of turns, and the other coefficients are plain differences.
  The lower end is not excluded: see \<open>heading_difference_minus_pi\<close>.
\<close>

theorem angle_differences_normalized:
  fixes minverse :: "mat \<Rightarrow> mat"
  assumes inv: "ukf_inv s" and raw: "length (raw_measurements' m) = 3"
  shows
   "\<bar>angle_normalization a\<bar> \<le> pi \<and>
    (let w = weights' s;
         X = Xsig_pred' s;
         s1 = PredictMeanAndCovariance s;
         x = x' s1;
         x_diff = x_diff_at X x
     in (\<forall>r<5. \<forall>c<5. coeff (P' s1) r c = (\<Sum>i<15. w ! i * x_diff i ! r * x_diff i ! c)) \<and>
        (\<forall>i<15. (\<forall>r<5. r \<noteq> 3 \<longrightarrow> x_diff i ! r = X ! i ! r - x ! r) \<and>
                 \<bar>x_diff i ! 3\<bar> \<le> pi \<and>
                 (\<exists>k::int. x_diff i ! 3 = X ! i ! 3 - x ! 3 + 2 * pi * of_int k))) \<and>
    (let w = weights' s;
         X = Xsig_pred' s;
         x = x' s;
         z = raw_measurements' m;
         s2 = UpdateRadar minverse m s;
         Z = Zsig' s2;
         z_pred = spec_weighted_mean w Z 3;
         z_diff = z_diff_at Z z_pred;
         x_diff = x_diff_at X x;
         S = madd (spec_weighted_outer w z_diff z_diff 3 3) (RR' s);
         Tc = spec_weighted_outer w x_diff z_diff 5 3;
         K = mmul Tc (minverse S);
         y = normalize_coeff 1 (vsub z z_pred)
     in PredictRadarMeasurement (VectorXd 3) (MatrixXd 3 3) s = (s\<lparr>Zsig' := Z\<rparr>, z_pred, S) \<and>
        s2 = s\<lparr>Zsig' := Z, x' := vadd x (mvmul K y),
               P' := msub (P' s) (mmul (mmul K S) (mtranspose K))\<rparr> \<and>
        (\<forall>r<3. \<forall>c<3. coeff S r c =
            (\<Sum>i<15. w ! i * z_diff i ! r * z_diff i ! c) + coeff (RR' s) r c) \<and>
        (\<forall>r<5. \<forall>c<3. coeff Tc r c = (\<Sum>i<15. w ! i * x_diff i ! r * z_diff i ! c)) \<and>
        (\<forall>i<15. (\<forall>r<3. r \<noteq> 1 \<longrightarrow> z_diff i ! r = Z ! i ! r - z_pred ! r) \<and>
                 \<bar>z_diff i ! 1\<bar> \<le> pi \<and>
                 (\<exists>k::int. z_diff i ! 1 = Z ! i ! 1 - z_pred ! 1 + 2 * pi * of_int k)) \<and>
        (\<forall>i<15. (\<forall>r<5. r \<noteq> 3 \<longrightarrow> x_diff i ! r = X ! i ! r - x ! r) \<and>
                 \<bar>x_diff i ! 3\<bar> \<le> pi \<and>
                 (\<exists>k::int. x_diff i ! 3 = X ! i ! 3 - x ! 3 + 2 * pi * of_int k)) \<and>
        (\<forall>r<3. r \<noteq> 1 \<longrightarrow> y ! r = z ! r - z_pred ! r) \<and>
        \<bar>y ! 1\<bar> \<le> pi \<and>
        (\<exists>k::int. y ! 1 = z ! 1 - z_pred ! 1 + 2 * pi * of_int k))"
proof -
  define w where "w = weights' s"
  define X where "X = Xsig_pred' s"
  have sz: "sizes_ok s" and iRR: "is_mat 3 3 (RR' s)"
    using inv by (simp_all add: ukf_inv_def config_values is_mat_def)
  have lX: "length X = 15" and cX: "\<And>i. i < 15 \<Longrightarrow> length (X ! i) = 5"
    and lx: "length (x' s) = 5"
    using sz by (simp_all add: sizes_values X_def)
  have one: "(1::nat) < 3" and three: "(3::nat) < 5"
    by simp_all
  have heading: "(\<forall>r<5. r \<noteq> 3 \<longrightarrow> x_diff_at X v i ! r = X ! i ! r - v ! r) \<and>
                 \<bar>x_diff_at X v i ! 3\<bar> \<le> pi \<and>
                 (\<exists>k::int. x_diff_at X v i ! 3 = X ! i ! 3 - v ! 3 + 2 * pi * of_int k)"
    if "i < 15" and "length v = 5" for i v
    unfolding x_diff_at_def Let_def col_def
    by (intro conjI normalized_difference(2-4) [OF cX [OF that(1)] that(2) three])
  define s1 where "s1 = PredictMeanAndCovariance s"
  define x1 where "x1 = x' s1"
  define d1 where "d1 = x_diff_at X x1"
  have lx1: "length x1 = 5"
    by (simp add: x1_def s1_def predicted_mean [OF inv])
  have P1: "\<forall>r<5. \<forall>c<5. coeff (P' s1) r c = (\<Sum>i<15. w ! i * d1 i ! r * d1 i ! c)"
    unfolding s1_def predicted_covariance [OF inv]
    unfolding d1_def x1_def s1_def X_def w_def
    by (intro allI impI) (rule coeff_spec_weighted_outer)
  have D1: "\<forall>i<15. (\<forall>r<5. r \<noteq> 3 \<longrightarrow> d1 i ! r = X ! i ! r - x1 ! r) \<and>
                 \<bar>d1 i ! 3\<bar> \<le> pi \<and>
                 (\<exists>k::int. d1 i ! 3 = X ! i ! 3 - x1 ! 3 + 2 * pi * of_int k)"
    unfolding d1_def using heading [OF _ lx1] by blast
  have part1: "(\<forall>r<5. \<forall>c<5. coeff (P' s1) r c = (\<Sum>i<15. w ! i * d1 i ! r * d1 i ! c)) \<and>
        (\<forall>i<15. (\<forall>r<5. r \<noteq> 3 \<longrightarrow> d1 i ! r = X ! i ! r - x1 ! r) \<and>
                 \<bar>d1 i ! 3\<bar> \<le> pi \<and>
                 (\<exists>k::int. d1 i ! 3 = X ! i ! 3 - x1 ! 3 + 2 * pi * of_int k))"
    using P1 D1 by (rule conjI)
  define x where "x = x' s"
  define z where "z = raw_measurements' m"
  define s2 where "s2 = UpdateRadar minverse m s"
  define Z where "Z = Zsig' s2"
  define z_pred where "z_pred = spec_weighted_mean w Z 3"
  define z_diff where "z_diff = z_diff_at Z z_pred"
  define x_diff where "x_diff = x_diff_at X x"
  define S where "S = madd (spec_weighted_outer w z_diff z_diff 3 3) (RR' s)"
  define Tc where "Tc = spec_weighted_outer w x_diff z_diff 5 3"
  define K where "K = mmul Tc (minverse S)"
  define y where "y = normalize_coeff 1 (vsub z z_pred)"
  note defs = z_def s2_def Z_def z_pred_def z_diff_def x_diff_def S_def Tc_def K_def y_def
  have Zv: "Z = map spec_radar_model (Xsig_pred' s)"
    using UpdateRadar_result [OF inv, of minverse m]
    by (simp add: Z_def s2_def Let_def)
  have eq: "s2 = s\<lparr>Zsig' := Z, x' := vadd x (mvmul K y),
               P' := msub (P' s) (mmul (mmul K S) (mtranspose K))\<rparr>"
    unfolding z_def z_pred_def z_diff_def x_diff_def S_def Tc_def K_def y_def x_def X_def w_def
      s2_def Zv
    using UpdateRadar_result [OF inv, of minverse m]
    unfolding Let_def .
  have pr: "PredictRadarMeasurement (VectorXd 3) (MatrixXd 3 3) s = (s\<lparr>Zsig' := Z\<rparr>, z_pred, S)"
    unfolding z_pred_def z_diff_def S_def w_def Zv
    using PredictRadarMeasurement_result [OF inv _ is_mat_MatrixXd, of "VectorXd 3"]
    unfolding Let_def by (simp add: VectorXd_def)
  have cZ: "length (Z ! i) = 3" if "i < 15" for i
    using that lX by (simp add: Zv X_def length_spec_radar_model)
  have lzp: "length z_pred = 3"
    by (simp add: z_pred_def spec_weighted_mean_def)
  have lz: "length z = 3"
    using raw by (simp add: z_def)
  have Sc: "\<forall>r<3. \<forall>c<3. coeff S r c =
            (\<Sum>i<15. w ! i * z_diff i ! r * z_diff i ! c) + coeff (RR' s) r c"
  proof (intro allI impI)
    fix r c :: nat assume r: "r < 3" and c: "c < 3"
    show "coeff S r c = (\<Sum>i<15. w ! i * z_diff i ! r * z_diff i ! c) + coeff (RR' s) r c"
      unfolding S_def
      by (simp only: coeff_madd [OF is_mat_spec_weighted_outer iRR r c]
          coeff_spec_weighted_outer [OF r c])
  qed
  have Tcc: "\<forall>r<5. \<forall>c<3. coeff Tc r c = (\<Sum>i<15. w ! i * x_diff i ! r * z_diff i ! c)"
    unfolding Tc_def by (intro allI impI) (rule coeff_spec_weighted_outer)
  have zd: "\<forall>i<15. (\<forall>r<3. r \<noteq> 1 \<longrightarrow> z_diff i ! r = Z ! i ! r - z_pred ! r) \<and>
                \<bar>z_diff i ! 1\<bar> \<le> pi \<and>
                (\<exists>k::int. z_diff i ! 1 = Z ! i ! 1 - z_pred ! 1 + 2 * pi * of_int k)"
  proof (intro allI impI)
    fix i :: nat assume i: "i < 15"
    show "(\<forall>r<3. r \<noteq> 1 \<longrightarrow> z_diff i ! r = Z ! i ! r - z_pred ! r) \<and>
                \<bar>z_diff i ! 1\<bar> \<le> pi \<and>
                (\<exists>k::int. z_diff i ! 1 = Z ! i ! 1 - z_pred ! 1 + 2 * pi * of_int k)"
      unfolding z_diff_def z_diff_at_def Let_def col_def
      by (intro conjI normalized_difference(2-4) [OF cZ [OF i] lzp one])
  qed
  have xd: "\<forall>i<15. (\<forall>r<5. r \<noteq> 3 \<longrightarrow> x_diff i ! r = X ! i ! r - x ! r) \<and>
                 \<bar>x_diff i ! 3\<bar> \<le> pi \<and>
                 (\<exists>k::int. x_diff i ! 3 = X ! i ! 3 - x ! 3 + 2 * pi * of_int k)"
    unfolding x_diff_def using heading [OF _ lx [folded x_def]] by blast
  have yv: "(\<forall>r<3. r \<noteq> 1 \<longrightarrow> y ! r = z ! r - z_pred ! r) \<and> \<bar>y ! 1\<bar> \<le> pi \<and>
       (\<exists>k::int. y ! 1 = z ! 1 - z_pred ! 1 + 2 * pi * of_int k)"
    unfolding y_def by (intro conjI normalized_difference(2-4) [OF lz lzp one])
  have part2: "PredictRadarMeasurement (VectorXd 3) (MatrixXd 3 3) s = (s\<lparr>Zsig' := Z\<rparr>, z_pred, S) \<and>
        s2 = s\<lparr>Zsig' := Z, x' := vadd x (mvmul K y),
               P' := msub (P' s) (mmul (mmul K S) (mtranspose K))\<rparr> \<and>
        (\<forall>r<3. \<forall>c<3. coeff S r c =
            (\<Sum>i<15. w ! i * z_diff i ! r * z_diff i ! c) + coeff (RR' s) r c) \<and>
        (\<forall>r<5. \<forall>c<3. coeff Tc r c = (\<Sum>i<15. w ! i * x_diff i ! r * z_diff i ! c)) \<and>
        (\<forall>i<15. (\<forall>r<3. r \<noteq> 1 \<longrightarrow> z_diff i ! r = Z ! i ! r - z_pred ! r) \<and>
                 \<bar>z_diff i ! 1\<bar> \<le> pi \<and>
                 (\<exists>k::int. z_diff i ! 1 = Z ! i ! 1 - z_pred ! 1 + 2 * pi * of_int k)) \<and>
        (\<forall>i<15. (\<forall>r<5. r \<noteq> 3 \<longrightarrow> x_diff i ! r = X ! i ! r - x ! r) \<and>
                 \<bar>x_diff i ! 3\<bar> \<le> pi \<and>
                 (\<exists>k::int. x_diff i ! 3 = X ! i ! 3 - x ! 3 + 2 * pi * of_int k)) \<and>
        (\<forall>r<3. r \<noteq> 1 \<longrightarrow> y ! r = z ! r - z_pred ! r) \<and>
        \<bar>y ! 1\<bar> \<le> pi \<and>
        (\<exists>k::int. y ! 1 = z ! 1 - z_pred ! 1 + 2 * pi * of_int k)"
    using pr eq Sc Tcc zd xd yv by blast
  show ?thesis
    unfolding Let_def
    by (intro conjI angle_normalization_abs
        part1 [unfolded d1_def x1_def s1_def X_def w_def, THEN conjunct1]
        part1 [unfolded d1_def x1_def s1_def X_def w_def, THEN conjunct2]
        part2 [unfolded defs x_def X_def w_def, THEN conjunct1]
        part2 [unfolded defs x_def X_def w_def, THEN conjunct2])
qed

theorem angle_differences_normalized_witness:
  "ukf_inv radar_example \<and>
   \<bar>angle_normalization 4\<bar> \<le> pi \<and>
   \<bar>x_diff_at (Xsig_pred' radar_example) (x' (PredictMeanAndCovariance radar_example)) 3 ! 3\<bar> \<le> pi \<and>
   \<bar>x_diff_at (Xsig_pred' radar_example) (x' radar_example) 3 ! 3\<bar> \<le> pi \<and>
   x_diff_at (Xsig_pred' radar_example) (x' radar_example) 3 ! 3 = 0 \<and>
   \<bar>normalize_coeff 1
      (vsub (raw_measurements'
               \<lparr>sensor_type' = RADAR, timestamp' = 50000, raw_measurements' = [3, 4, 2]\<rparr>)
         (spec_weighted_mean (weights' radar_example)
            (Zsig' (UpdateRadar inverse_diag
               \<lparr>sensor_type' = RADAR, timestamp' = 50000, raw_measurements' = [3, 4, 2]\<rparr>
               radar_example)) 3)) ! 1\<bar> \<le> pi \<and>
   normalize_coeff 1 (vsub [3, 4, 2] [2, 0, 1]) ! 1 = 4 - 2 * pi"
proof -
  let ?m = "\<lparr>sensor_type' = RADAR, timestamp' = 50000, raw_measurements' = [3, 4, 2]\<rparr>"
  have raw: "length (raw_measurements' ?m) = 3"
    by simp
  have i: "(3::nat) < 15"
    by simp
  note t = angle_differences_normalized [where a = 4 and minverse = inverse_diag
      and s = radar_example and m = ?m, OF ukf_inv_radar_example raw, unfolded Let_def]
  note predicted = t [THEN conjunct2, THEN conjunct1, THEN conjunct2, THEN spec, THEN mp, OF i]
  note radar = t [THEN conjunct2, THEN conjunct2]
  note cross = radar [THEN conjunct2, THEN conjunct2, THEN conjunct2, THEN conjunct2,
      THEN conjunct2, THEN conjunct1, THEN spec, THEN mp, OF i]
  note residual = radar [THEN conjunct2, THEN conjunct2, THEN conjunct2, THEN conjunct2,
      THEN conjunct2, THEN conjunct2, THEN conjunct2, THEN conjunct1]
  have zero: "x_diff_at (Xsig_pred' radar_example) (x' radar_example) 3 ! 3 = 0"
    by (simp add: radar_example_def x_diff_at_def col_def vsub_def normalize_coeff_def
        angle_normalization_2pi)
  have four: "normalize_coeff 1 (vsub [3, 4, 2] [2, 0, 1]) ! 1 = 4 - 2 * pi"
    by (simp add: normalize_coeff_def vsub_def angle_normalization_4)
  show ?thesis
    by (intro conjI ukf_inv_radar_example t [THEN conjunct1] predicted [THEN conjunct2, THEN conjunct1]
        cross [THEN conjunct2, THEN conjunct1] zero residual four)
qed

text \<open>
  C3 as stated fails at the lower end of the interval. A sigma point with heading \<open>0\<close>
  against a mean with heading \<open>pi\<close> has the heading difference \<open>- pi\<close>; neither loop
  runs on it (the second tests \<open>< - pi\<close>), so the value used is \<open>- pi\<close>, which is not
  in the half-open interval.
\<close>

theorem heading_difference_minus_pi:
  "\<not> (- pi < x_diff_at [[0, 0, 0, 0, 0]] [0, 0, 0, pi, 0] 0 ! 3 \<and>
      x_diff_at [[0, 0, 0, 0, 0]] [0, 0, 0, pi, 0] 0 ! 3 \<le> pi)"
proof -
  have "x_diff_at [[0, 0, 0, 0, 0]] [0, 0, 0, pi, 0] 0 ! 3 = - pi"
    by (simp add: x_diff_at_def col_def vsub_def normalize_coeff_def angle_normalization_id)
  then show ?thesis by simp
qed

subsection \<open>Dispatcher\<close>

text \<open>The prediction step writes the sigma points, the mean and the covariance only.\<close>

lemma Prediction_frame:
  "is_initialized' (Prediction llt dt s) = is_initialized' s"
  "use_laser' (Prediction llt dt s) = use_laser' s"
  "use_radar' (Prediction llt dt s) = use_radar' s"
  "time' (Prediction llt dt s) = time' s"
  by (simp_all add: Prediction_def PredictMeanAndCovariance_def SigmaPointPrediction_def
      AugmentedSigmaPoints_def Let_def)

lemma first_laser_mean:
  assumes "length x = 5" and "length raw = 2"
  shows "fill_tail 3 (set_head 2 x raw) 0 = [raw ! 0, raw ! 1, 0, 0, 0]"
proof -
  from assms(2) obtain a b where raw: "raw = [a, b]"
    by (auto simp add: length_Suc_conv eval_nat_numeral)
  show ?thesis
    using assms(1) by (simp add: fill_tail_def set_head_def raw numeral_3_eq_3)
qed

text \<open>
  C6. On a filter that is not yet initialized, a first sample tagged \<open>LASER\<close> (with its
  two raw coordinates) makes the call return the state with the mean set to the two raw
  coordinates followed by three zeros, the time stamp recorded and the filter marked ready,
  and nothing else changed; a first sample with any other tag, \<open>RADAR\<close> in particular,
  makes the call return the state unchanged: no error, and the filter stays uninitialized.
  So the filter initializes exactly when the tag is \<open>LASER\<close>.
\<close>

theorem first_measurement_initializes_iff_laser:
  assumes "\<not> is_initialized' s" and "length (x' s) = 5"
    and "sensor_type' m = LASER \<longrightarrow> length (raw_measurements' m) = 2"
  shows "(sensor_type' m = LASER \<longrightarrow>
            ProcessMeasurement llt minverse m s =
              Inr (s\<lparr>x' := [raw_measurements' m ! 0, raw_measurements' m ! 1, 0, 0, 0],
                     time' := timestamp' m, is_initialized' := True\<rparr>)) \<and>
         (sensor_type' m \<noteq> LASER \<longrightarrow> ProcessMeasurement llt minverse m s = Inr s) \<and>
         (\<forall>s'. ProcessMeasurement llt minverse m s = Inr s' \<longrightarrow>
            (is_initialized' s' \<longleftrightarrow> sensor_type' m = LASER))"
  using assms by (cases "sensor_type' m") (simp_all add: ProcessMeasurement_def first_laser_mean)

theorem first_measurement_initializes_iff_laser_witness:
  "\<not> is_initialized' fresh_ukf \<and>
   ProcessMeasurement llt_diag inverse_diag
     \<lparr>sensor_type' = LASER, timestamp' = 7, raw_measurements' = [1, 1]\<rparr> fresh_ukf =
     Inr (fresh_ukf\<lparr>x' := [1, 1, 0, 0, 0], time' := 7, is_initialized' := True\<rparr>) \<and>
   ProcessMeasurement llt_diag inverse_diag
     \<lparr>sensor_type' = RADAR, timestamp' = 7, raw_measurements' = [1, 0, 0]\<rparr> fresh_ukf =
     Inr fresh_ukf"
  using
    first_measurement_initializes_iff_laser [of fresh_ukf
      "\<lparr>sensor_type' = LASER, timestamp' = 7, raw_measurements' = [1, 1]\<rparr>"
      llt_diag inverse_diag]
    first_measurement_initializes_iff_laser [of fresh_ukf
      "\<lparr>sensor_type' = RADAR, timestamp' = 7, raw_measurements' = [1, 0, 0]\<rparr>"
      llt_diag inverse_diag]
  by (simp add: fresh_ukf_def UKF_flags)

text \<open>
  C7 (as amended). For a sample whose tag is neither \<open>LASER\<close> nor \<open>RADAR\<close>: on an
  initialized filter the call ends in \<^verbatim>\<open>exit(1)\<close> and nothing is returned to the caller; on
  a filter that is not initialized the call returns normally and leaves the state as it was.
\<close>

theorem unrecognized_sensor_tag:
  "sensor_type' m = OTHER \<Longrightarrow>
     ProcessMeasurement llt minverse m s =
       (if is_initialized' s then Inl (Exit 1) else Inr s)"
  by (simp add: ProcessMeasurement_def Let_def)

theorem unrecognized_sensor_tag_witness:
  "ProcessMeasurement llt_diag inverse_diag
     \<lparr>sensor_type' = OTHER, timestamp' = 7, raw_measurements' = []\<rparr>
     (fresh_ukf\<lparr>is_initialized' := True\<rparr>) = Inl (Exit 1)"
  using unrecognized_sensor_tag
    [of "\<lparr>sensor_type' = OTHER, timestamp' = 7, raw_measurements' = []\<rparr>"
      llt_diag inverse_diag "fresh_ukf\<lparr>is_initialized' := True\<rparr>"]
  by simp

text \<open>
  C7 as stated fails on a filter that is not initialized: the first \<^verbatim>\<open>switch\<close> sends every
  tag other than \<open>LASER\<close> to \<^verbatim>\<open>default: return;\<close>, so the call returns without an abort.
\<close>

theorem unrecognized_sensor_tag_before_initialization:
  "ProcessMeasurement llt_diag inverse_diag
     \<lparr>sensor_type' = OTHER, timestamp' = 7, raw_measurements' = []\<rparr> fresh_ukf = Inr fresh_ukf \<and>
   ProcessMeasurement llt_diag inverse_diag
     \<lparr>sensor_type' = OTHER, timestamp' = 7, raw_measurements' = []\<rparr> fresh_ukf \<noteq> Inl (Exit 1)"
  by (simp add: ProcessMeasurement_def fresh_ukf_def UKF_flags)

text \<open>
  C8. On an initialized filter, a \<open>RADAR\<close> sample with \<open>use_radar_\<close> false, and likewise a
  \<open>LASER\<close> sample with \<open>use_laser_\<close> false, makes the call return exactly the state that
  the prediction step produces from the state with the sample's time stamp stored: the
  prediction runs over the elapsed time in seconds, no update is applied to the predicted
  mean and covariance, and the stored time stamp is the sample's.
\<close>

theorem disabled_sensor_predicts_only:
  assumes "is_initialized' s"
    and "sensor_type' m = RADAR \<and> \<not> use_radar' s \<or> sensor_type' m = LASER \<and> \<not> use_laser' s"
  shows "ProcessMeasurement llt minverse m s =
           Inr (Prediction llt (real_of_int (timestamp' m - time' s) / 1000000)
                  (s\<lparr>time' := timestamp' m\<rparr>)) \<and>
         time' (Prediction llt (real_of_int (timestamp' m - time' s) / 1000000)
                  (s\<lparr>time' := timestamp' m\<rparr>)) = timestamp' m"
  using assms by (auto simp add: ProcessMeasurement_def Let_def Prediction_frame)

theorem disabled_sensor_predicts_only_witness:
  "ProcessMeasurement llt_diag inverse_diag
     \<lparr>sensor_type' = RADAR, timestamp' = 50000, raw_measurements' = [1, 0, 0]\<rparr>
     (fresh_ukf\<lparr>is_initialized' := True, use_radar' := False\<rparr>) =
     Inr (Prediction llt_diag (1 / 20)
            (fresh_ukf\<lparr>is_initialized' := True, use_radar' := False, time' := 50000\<rparr>)) \<and>
   ProcessMeasurement llt_diag inverse_diag
     \<lparr>sensor_type' = LASER, timestamp' = 50000, raw_measurements' = [1, 1]\<rparr>
     (fresh_ukf\<lparr>is_initialized' := True, use_laser' := False\<rparr>) =
     Inr (Prediction llt_diag (1 / 20)
            (fresh_ukf\<lparr>is_initialized' := True, use_laser' := False, time' := 50000\<rparr>))"
  using
    disabled_sensor_predicts_only
      [of "fresh_ukf\<lparr>is_initialized' := True, use_radar' := False\<rparr>"
        "\<lparr>sensor_type' = RADAR, timestamp' = 50000, raw_measurements' = [1, 0, 0]\<rparr>"
        llt_diag inverse_diag]
    disabled_sensor_predicts_only
      [of "fresh_ukf\<lparr>is_initialized' := True, use_laser' := False\<rparr>"
        "\<lparr>sensor_type' = LASER, timestamp' = 50000, raw_measurements' = [1, 1]\<rparr>"
        llt_diag inverse_diag]
  by (simp add: fresh_ukf_def UKF_flags)

subsection \<open>The invariant along a run\<close>

text \<open>Every state that \<open>ProcessMeasurement\<close> returns from a state satisfying \<open>ukf_inv\<close>
  satisfies it again, and the constructor establishes it (\<open>ukf_inv_UKF\<close>): the hypothesis
  \<open>ukf_inv\<close> of the theorems above holds of every state the filter reaches.\<close>

lemma predicted_covariance_is_mat:
  assumes "ukf_inv s"
  shows "is_mat 5 5 (P' (PredictMeanAndCovariance s))"
proof -
  from assms have cfg: "n_aug' s = 7" and sz: "sizes_ok s"
    by (simp_all add: ukf_inv_def config_values)
  let ?x = "x' (PredictMeanAndCovariance s)"
  let ?d = "x_diff_at (Xsig_pred' s) ?x"
  have x: "length ?x = 5"
    by (simp add: predicted_mean [OF assms])
  have d: "\<forall>i<15. length (?d i) = 5 \<and> length (?d i) = 5"
    using sz x by (simp add: length_x_diff_at sizes_values)
  have P0: "mfill (P' s) 0 = replicate 5 (replicate 5 0)"
    using sz by (simp add: mfill_is_mat sizes_ok_def)
  have "P' (PredictMeanAndCovariance s) =
        fold (\<lambda>i P. madd P (outer (smult (weights' s ! i) (?d i)) (?d i))) [0..<15]
          (mfill (P' s) 0)"
    by (simp add: PredictMeanAndCovariance_def Let_def cfg)
  also have "\<dots> = map (\<lambda>c. map (\<lambda>r. replicate 5 (replicate 5 0) ! c ! r +
                 (\<Sum>i<15. weights' s ! i * ?d i ! r * ?d i ! c)) [0..<5]) [0..<5]"
    unfolding P0 by (rule fold_weighted_outer [OF is_mat_replicate d])
  finally show ?thesis
    by (simp add: is_mat_iff)
qed

lemma PredictMeanAndCovariance_writes:
  "PredictMeanAndCovariance s =
     s\<lparr>x' := x' (PredictMeanAndCovariance s), P' := P' (PredictMeanAndCovariance s)\<rparr>"
  by (simp add: PredictMeanAndCovariance_def Let_def)

lemma ukf_inv_state_update:
  "ukf_inv s \<Longrightarrow> length v = 5 \<Longrightarrow> is_mat 5 5 Q \<Longrightarrow> ukf_inv (s\<lparr>x' := v, P' := Q\<rparr>)"
  "ukf_inv s \<Longrightarrow> length v = 5 \<Longrightarrow> is_mat 5 5 Q \<Longrightarrow> is_mat 3 15 Z \<Longrightarrow>
     ukf_inv (s\<lparr>Zsig' := Z, x' := v, P' := Q\<rparr>)"
  "ukf_inv s \<Longrightarrow> ukf_inv (s\<lparr>time' := t\<rparr>)"
  "ukf_inv s \<Longrightarrow> length v = 5 \<Longrightarrow> ukf_inv (s\<lparr>x' := v, time' := t, is_initialized' := b\<rparr>)"
  by (simp_all add: ukf_inv_def config_ok_def sizes_ok_def)

lemma ukf_inv_PredictMeanAndCovariance:
  assumes "ukf_inv s"
  shows "ukf_inv (PredictMeanAndCovariance s)"
proof -
  have "length (x' (PredictMeanAndCovariance s)) = 5"
    by (simp add: predicted_mean [OF assms])
  then show ?thesis
    by (subst PredictMeanAndCovariance_writes)
      (rule ukf_inv_state_update(1) [OF assms _ predicted_covariance_is_mat [OF assms]])
qed

lemma ukf_inv_Prediction:
  fixes llt :: "mat \<Rightarrow> mat"
  assumes "ukf_inv s" and "is_mat 7 7 (llt (augmented_covariance s))"
  shows "ukf_inv (Prediction llt dt s)"
  unfolding Prediction_def
  by (intro ukf_inv_PredictMeanAndCovariance ukf_inv_SigmaPointPrediction
      ukf_inv_AugmentedSigmaPoints [where llt = llt and s = s] assms)

lemma ukf_inv_UpdateLidar:
  assumes inv: "ukf_inv s" and lib: "keeps_size minverse"
  shows "ukf_inv (UpdateLidar minverse m s)"
proof -
  let ?H = "[[1, 0], [0, 1], [0, 0], [0, 0], [0, 0]] :: mat"
  let ?R = "[[0.0225, 0], [0, 0.0225]] :: mat"
  from inv have H: "H' s = ?H" and R: "RL' s = ?R" and sz: "sizes_ok s"
    by (simp_all add: ukf_inv_def config_values)
  have iH: "is_mat 2 5 ?H" and iR: "is_mat 2 2 ?R"
    by (simp_all add: is_mat_def)
  from sz have iP: "is_mat 5 5 (P' s)" and x: "length (x' s) = 5"
    by (simp_all add: sizes_ok_def)
  let ?Ht = "mtranspose ?H"
  let ?S = "madd (mmul (mmul ?H (P' s)) ?Ht) ?R"
  let ?K = "mmul (mmul (P' s) ?Ht) (minverse ?S)"
  have iHt: "is_mat 5 2 ?Ht"
    by (rule is_mat_mtranspose [OF iH]) simp
  have iS: "is_mat 2 2 ?S"
    by (intro is_mat_madd iR is_mat_mmul [where k = 5] is_mat_length [OF iHt]
        is_mat_mmul [where k = 5 and A = ?H] iH is_mat_length [OF iP]) simp_all
  with lib have iSi: "is_mat 2 2 (minverse ?S)"
    by (simp add: keeps_size_def)
  have iK: "is_mat 5 2 ?K"
    by (intro is_mat_mmul [where k = 2] is_mat_mmul [where k = 5 and A = "P' s"] iP
        is_mat_length [OF iHt] is_mat_length [OF iSi]) simp_all
  have iKH: "is_mat 5 5 (mmul ?K ?H)"
    by (rule is_mat_mmul [OF iK]) simp_all
  have iP': "is_mat 5 5 (mmul (msub (Identity 5) (mmul ?K ?H)) (P' s))"
    by (intro is_mat_mmul [where k = 5] is_mat_msub is_mat_Identity iKH is_mat_length [OF iP])
      simp
  have rK: "rows ?K = 5"
    by (rule rows_is_mat [OF iK]) simp
  have lx: "length (vadd (x' s) (mvmul ?K (vsub (head 2 (raw_measurements' m)) (mvmul ?H (x' s))))) = 5"
    by (simp only: length_vadd length_mvmul rK x)
  have "UpdateLidar minverse m s =
     s\<lparr>x' := vadd (x' s) (mvmul ?K (vsub (head 2 (raw_measurements' m)) (mvmul ?H (x' s)))),
       P' := mmul (msub (Identity 5) (mmul ?K ?H)) (P' s)\<rparr>"
    by (simp only: UpdateLidar_def Let_def H R)
  then show ?thesis
    by (simp only:) (rule ukf_inv_state_update(1) [OF inv lx iP'])
qed

lemma ukf_inv_UpdateRadar:
  assumes inv: "ukf_inv s" and lib: "keeps_size minverse"
  shows "ukf_inv (UpdateRadar minverse m s)"
proof -
  from inv have RR: "RR' s = [[0.09, 0, 0], [0, 0.0009, 0], [0, 0, 0.09]]"
    and sz: "sizes_ok s"
    by (simp_all add: ukf_inv_def config_values)
  from sz have iP: "is_mat 5 5 (P' s)" and x: "length (x' s) = 5"
    and lenX: "length (Xsig_pred' s) = 15"
    by (simp_all add: sizes_ok_def is_mat_iff)
  let ?w = "weights' s"
  let ?Z = "map spec_radar_model (Xsig_pred' s)"
  let ?zp = "spec_weighted_mean ?w ?Z 3"
  let ?zd = "z_diff_at ?Z ?zp"
  let ?xd = "x_diff_at (Xsig_pred' s) (x' s)"
  let ?S = "madd (spec_weighted_outer ?w ?zd ?zd 3 3) (RR' s)"
  let ?Tc = "spec_weighted_outer ?w ?xd ?zd 5 3"
  let ?K = "mmul ?Tc (minverse ?S)"
  let ?y = "normalize_coeff 1 (vsub (raw_measurements' m) ?zp)"
  have iR: "is_mat 3 3 (RR' s)"
    by (simp add: RR is_mat_def)
  have iS: "is_mat 3 3 ?S"
    by (intro is_mat_madd is_mat_spec_weighted_outer iR)
  with lib have iSi: "is_mat 3 3 (minverse ?S)"
    by (simp add: keeps_size_def)
  have iK: "is_mat 5 3 ?K"
    by (rule is_mat_mmul [OF is_mat_spec_weighted_outer _ is_mat_length [OF iSi]]) simp
  have iKt: "is_mat 3 5 (mtranspose ?K)"
    by (rule is_mat_mtranspose [OF iK]) simp
  have iP': "is_mat 5 5 (msub (P' s) (mmul (mmul ?K ?S) (mtranspose ?K)))"
    by (intro is_mat_msub iP is_mat_mmul [where k = 3] iK is_mat_length [OF iS]
        is_mat_length [OF iKt]) simp_all
  have rK: "rows ?K = 5"
    by (rule rows_is_mat [OF iK]) simp
  have lx: "length (vadd (x' s) (mvmul ?K ?y)) = 5"
    by (simp only: length_vadd length_mvmul rK x)
  have iZ: "is_mat 3 15 ?Z"
    using lenX by (simp add: is_mat_iff length_spec_radar_model)
  have "UpdateRadar minverse m s = s\<lparr>Zsig' := ?Z, x' := vadd (x' s) (mvmul ?K ?y),
          P' := msub (P' s) (mmul (mmul ?K ?S) (mtranspose ?K))\<rparr>"
    using UpdateRadar_result [where minverse = minverse and m = m, OF inv]
    unfolding Let_def .
  then show ?thesis
    by (simp only:) (rule ukf_inv_state_update(2) [OF inv lx iP' iZ])
qed

lemma keeps_size_llt_diag: "keeps_size llt_diag"
  by (simp add: keeps_size_def is_mat_llt_diag)

lemma ukf_inv_ProcessMeasurement:
  fixes llt minverse :: "mat \<Rightarrow> mat"
  assumes inv: "ukf_inv s" and lib: "keeps_size llt" "keeps_size minverse"
    and m: "sample_ok m" and res: "ProcessMeasurement llt minverse m s = Inr t"
  shows "ukf_inv t"
proof (cases "is_initialized' s")
  case False
  show ?thesis
  proof (cases "sensor_type' m = LASER")
    case True
    with m have "length (raw_measurements' m) = 2"
      by (simp add: sample_ok_def)
    moreover from inv have "length (x' s) = 5"
      by (simp add: ukf_inv_def sizes_ok_def)
    ultimately have "length (fill_tail 3 (set_head 2 (x' s) (raw_measurements' m)) 0) = 5"
      by (simp add: first_laser_mean)
    with inv have "ukf_inv (s\<lparr>x' := fill_tail 3 (set_head 2 (x' s) (raw_measurements' m)) 0,
                     time' := timestamp' m, is_initialized' := True\<rparr>)"
      by (rule ukf_inv_state_update(4))
    with res False True show ?thesis
      by (simp add: ProcessMeasurement_def)
  next
    case other: False
    with res False inv show ?thesis
      by (cases "sensor_type' m") (simp_all add: ProcessMeasurement_def)
  qed
next
  case True
  let ?dt = "real_of_int (timestamp' m - time' s) / 1000000"
  let ?s0 = "s\<lparr>time' := timestamp' m\<rparr>"
  let ?s1 = "Prediction llt ?dt ?s0"
  have inv0: "ukf_inv ?s0"
    by (rule ukf_inv_state_update(3) [OF inv])
  then have "is_mat 5 5 (P' ?s0)"
    by (simp add: ukf_inv_def sizes_ok_def)
  then have "is_mat 7 7 (augmented_covariance ?s0)"
    by (rule is_mat_augmented_covariance)
  with lib(1) have L: "is_mat 7 7 (llt (augmented_covariance ?s0))"
    by (simp add: keeps_size_def)
  have inv1: "ukf_inv ?s1"
    by (rule ukf_inv_Prediction [where llt = llt and s = ?s0, OF inv0 L])
  show ?thesis
  proof (cases "sensor_type' m")
    case LASER
    with res True have "t = (if use_laser' ?s1 then UpdateLidar minverse m ?s1 else ?s1)"
      by (simp add: ProcessMeasurement_def Let_def)
    with inv1 lib(2) show ?thesis
      by (simp add: ukf_inv_UpdateLidar)
  next
    case RADAR
    with res True have "t = (if use_radar' ?s1 then UpdateRadar minverse m ?s1 else ?s1)"
      by (simp add: ProcessMeasurement_def Let_def)
    with inv1 lib(2) show ?thesis
      by (simp add: ukf_inv_UpdateRadar)
  next
    case OTHER
    with res True show ?thesis
      by (simp add: ProcessMeasurement_def Let_def)
  qed
qed

text \<open>When the mean is at rest at the origin, sigma point 0 is predicted at the origin,
  whatever the elapsed time: the dispatcher does not keep the predicted sigma points off the
  origin. There \<open>PredictRadarMeasurement\<close> divides zero by zero: the source stores a NaN and
  the model HOL's \<open>0 / 0 = 0\<close>, so at such a state the numbers of the radar update in the
  model are not the program's.\<close>

lemma mean_at_rest_at_origin:
  fixes llt :: "mat \<Rightarrow> mat"
  assumes inv: "ukf_inv s" and lib: "keeps_size llt"
    and x: "x' s ! 0 = 0" "x' s ! 1 = 0" "x' s ! 2 = 0"
  shows "coeff (Xsig_pred' (Prediction llt dt s)) 0 0 = 0 \<and>
         coeff (Xsig_pred' (Prediction llt dt s)) 1 0 = 0"
proof -
  let ?sa = "AugmentedSigmaPoints llt s"
  let ?sp = "SigmaPointPrediction dt ?sa"
  from inv have x0: "length (x' s) = 5" and "is_mat 5 5 (P' s)"
    by (simp_all add: ukf_inv_def sizes_ok_def)
  then have "is_mat 7 7 (augmented_covariance s)"
    by (simp add: is_mat_augmented_covariance)
  with lib have L: "is_mat 7 7 (llt (augmented_covariance s))"
    by (simp add: keeps_size_def)
  have inva: "ukf_inv ?sa"
    by (rule ukf_inv_AugmentedSigmaPoints [where llt = llt and s = s, OF inv L])
  have "Xsig_aug' ?sa ! 0 = x' s @ [0, 0]"
    using AugmentedSigmaPoints_columns(2) [OF inv, where llt = llt] x0
    by (simp add: augmented_mean_eq)
  then have a0: "Xsig_aug' ?sa ! 0 ! 0 = 0" "Xsig_aug' ?sa ! 0 ! 1 = 0"
    "Xsig_aug' ?sa ! 0 ! 2 = 0" "Xsig_aug' ?sa ! 0 ! 5 = 0"
    using x x0 by (simp_all add: nth_append)
  have "Xsig_pred' (Prediction llt dt s) ! 0 = Xsig_pred' ?sp ! 0"
    by (simp add: Prediction_def PredictMeanAndCovariance_frame)
  then show ?thesis
    using a0 by (simp add: coeff_def SigmaPointPrediction_column(1) [OF inva, of 0])
qed

end
